theory Spec2Isabelle
  imports Main "HOL-Library.Product_Lexorder" "HOL-Library.Multiset"
begin

section \<open>Python values\<close>

text \<open>
  Events, rule conditions, action configurations and handler results are Python
  dictionaries whose values come from JSON columns and text columns. A value is one of
  the JSON-native Python values. A dictionary is an association list in iteration order
  (keys are distinct in a real dictionary; lookup takes the first entry). JSON numbers
  are modelled as integers. A column value that reaches Python as a UUID object is
  carried as its string, a datetime as an integer time stamp; the matcher never reads
  such a column.
\<close>

datatype pyval =
    PNone
  | PBool bool
  | PInt int
  | PStr string
  | PList "pyval list"
  | PDict "(string \<times> pyval) list"

type_synonym pydict = "(string \<times> pyval) list"

text \<open>
  Exceptions are values. The payload is the text that \<open>str(e)\<close> gives; the exact wording
  of the interpreter's own messages is abbreviated.
\<close>

datatype py_error =
    AttributeError string
  | TypeError string
  | KeyError string
  | ReError string
  | OtherError string

fun exc_str :: "py_error \<Rightarrow> string" where
  "exc_str (AttributeError m) = m"
| "exc_str (TypeError m) = m"
| "exc_str (KeyError m) = m"
| "exc_str (ReError m) = m"
| "exc_str (OtherError m) = m"

fun is_re_error :: "py_error \<Rightarrow> bool" where
  "is_re_error (ReError m) = True"
| "is_re_error e = False"

text \<open>Truthiness, as \<open>not x\<close> and \<open>if x\<close> use it.\<close>

fun truthy :: "pyval \<Rightarrow> bool" where
  "truthy PNone = False"
| "truthy (PBool b) = b"
| "truthy (PInt i) = (i \<noteq> 0)"
| "truthy (PStr s) = (s \<noteq> [])"
| "truthy (PList xs) = (xs \<noteq> [])"
| "truthy (PDict d) = (d \<noteq> [])"

text \<open>
  Python's \<open>==\<close> on these values: \<open>bool\<close> is a subclass of \<open>int\<close>, so \<open>True == 1\<close>;
  lists compare element by element; dictionaries compare as maps, whatever the order.
\<close>

fun py_eq :: "pyval \<Rightarrow> pyval \<Rightarrow> bool"
  and py_eq_list :: "pyval list \<Rightarrow> pyval list \<Rightarrow> bool"
  and py_eq_items :: "pydict \<Rightarrow> pydict \<Rightarrow> bool"
  and py_eq_entry :: "string \<Rightarrow> pyval \<Rightarrow> pydict \<Rightarrow> bool"
where
  "py_eq PNone PNone = True"
| "py_eq (PBool a) (PBool b) = (a = b)"
| "py_eq (PBool a) (PInt b) = ((if a then 1 else 0) = b)"
| "py_eq (PInt a) (PBool b) = (a = (if b then 1 else 0))"
| "py_eq (PInt a) (PInt b) = (a = b)"
| "py_eq (PStr a) (PStr b) = (a = b)"
| "py_eq (PList xs) (PList ys) = py_eq_list xs ys"
| "py_eq (PDict d) (PDict e) = (length d = length e \<and> py_eq_items d e)"
| "py_eq _ _ = False"
| "py_eq_list [] ys = (ys = [])"
| "py_eq_list (x # xs) [] = False"
| "py_eq_list (x # xs) (y # ys) = (py_eq x y \<and> py_eq_list xs ys)"
| "py_eq_items [] e = True"
| "py_eq_items ((k, v) # d) e = (py_eq_entry k v e \<and> py_eq_items d e)"
| "py_eq_entry k v [] = False"
| "py_eq_entry k v ((k', w) # e) = (if k = k' then py_eq v w else py_eq_entry k v e)"

text \<open>\<open>d.get(k, default)\<close>: a key stored with the value \<open>None\<close> yields \<open>None\<close>, not the default.\<close>

definition dict_get :: "pydict \<Rightarrow> string \<Rightarrow> pyval \<Rightarrow> pyval" where
  "dict_get d k dflt = (case map_of d k of None \<Rightarrow> dflt | Some v \<Rightarrow> v)"

text \<open>\<open>d[k] = v\<close> on a dictionary: an existing key keeps its place, a new key goes last.\<close>

fun dict_set :: "pydict \<Rightarrow> string \<Rightarrow> pyval \<Rightarrow> pydict" where
  "dict_set [] k v = [(k, v)]"
| "dict_set ((k', w) # d) k v = (if k' = k then (k, v) # d else (k', w) # dict_set d k v)"

fun type_name :: "pyval \<Rightarrow> string" where
  "type_name PNone = ''NoneType''"
| "type_name (PBool b) = ''bool''"
| "type_name (PInt i) = ''int''"
| "type_name (PStr s) = ''str''"
| "type_name (PList xs) = ''list''"
| "type_name (PDict d) = ''dict''"

definition no_attribute :: "pyval \<Rightarrow> string \<Rightarrow> py_error" where
  "no_attribute v a = AttributeError (type_name v @ '' object has no attribute '' @ a)"

subsection \<open>Strings and the Python library\<close>

text \<open>
  A string is a list of characters; a character of the model stands for a character of
  a Python string, and nothing below depends on which characters there are. What the
  sources call from Python's own library on strings is a parameter of the model and not
  defined here: \<open>str.lower()\<close>, \<open>str.strip()\<close>, and the \<open>re\<close> module. Compiling a
  pattern with given flags either raises or gives the search predicate on texts; the
  only flag the sources pass is \<open>re.IGNORECASE\<close>.
\<close>

datatype re_flag = IGNORECASE

type_synonym regex = "re_flag list \<Rightarrow> string \<Rightarrow> py_error + (string \<Rightarrow> bool)"

record pylib =
  str_lower :: "string \<Rightarrow> string"
  str_strip :: "string \<Rightarrow> string"
  re_compile :: regex

text \<open>\<open>v.lower()\<close> on any value: only a string has the method.\<close>

fun py_lower :: "pylib \<Rightarrow> pyval \<Rightarrow> py_error + string" where
  "py_lower py (PStr s) = Inr (str_lower py s)"
| "py_lower py v = Inl (no_attribute v ''lower'')"

text \<open>\<open>sub in text\<close> on two strings: \<open>sub\<close> occurs as a contiguous piece of \<open>text\<close>.\<close>

fun str_in :: "string \<Rightarrow> string \<Rightarrow> bool" where
  "str_in sub [] = (sub = [])"
| "str_in sub (c # cs) = (take (length sub) (c # cs) = sub \<or> str_in sub cs)"

section \<open>Matcher (domains/events/logic.py)\<close>

definition contains :: "pylib \<Rightarrow> pyval \<Rightarrow> pyval \<Rightarrow> py_error + bool" where
  "contains py text substring =
     (if \<not> truthy text \<or> \<not> truthy substring then Inr False
      else (case py_lower py substring of
              Inl e \<Rightarrow> Inl e
            | Inr sub \<Rightarrow>
                (case py_lower py text of
                   Inl e \<Rightarrow> Inl e
                 | Inr t \<Rightarrow> Inr (str_in sub t))))"

definition equals :: "pylib \<Rightarrow> pyval \<Rightarrow> pyval \<Rightarrow> py_error + bool" where
  "equals py text val =
     (if \<not> truthy text \<or> \<not> truthy val then Inr (py_eq text val)
      else (case py_lower py text of
              Inl e \<Rightarrow> Inl e
            | Inr t \<Rightarrow>
                (case py_lower py val of
                   Inl e \<Rightarrow> Inl e
                 | Inr v \<Rightarrow> Inr (t = v))))"

text \<open>
  \<open>re.search(pattern, text, re.IGNORECASE)\<close> compiles the pattern first, so a pattern
  that is not a string is a \<open>TypeError\<close> whatever the text is, an invalid pattern is
  \<open>re.error\<close> (the only exception the source catches), and a text that is not a string
  is a \<open>TypeError\<close> once the pattern has compiled.
\<close>

definition regex_match :: "pylib \<Rightarrow> pyval \<Rightarrow> pyval \<Rightarrow> py_error + bool" where
  "regex_match py text pattern =
     (if \<not> truthy text \<or> \<not> truthy pattern then Inr False
      else (case pattern of
              PStr p \<Rightarrow>
                (case re_compile py [IGNORECASE] p of
                   Inl e \<Rightarrow> (if is_re_error e then Inr False else Inl e)
                 | Inr search \<Rightarrow>
                     (case text of
                        PStr t \<Rightarrow> Inr (search t)
                      | _ \<Rightarrow> Inl (TypeError ''expected string or bytes-like object''))
                )
            | _ \<Rightarrow> Inl (TypeError ''first argument must be string or compiled pattern'')))"

text \<open>\<open>bool(payload.get("attachments"))\<close>, where \<open>payload\<close> is whatever the event holds.\<close>

definition has_attachments :: "pyval \<Rightarrow> py_error + bool" where
  "has_attachments payload =
     (case payload of
        PDict d \<Rightarrow> Inr (truthy (dict_get d ''attachments'' PNone))
      | _ \<Rightarrow> Inl (no_attribute payload ''get''))"

definition check_condition :: "pylib \<Rightarrow> pydict \<Rightarrow> string \<Rightarrow> pyval \<Rightarrow> py_error + bool" where
  "check_condition py event condition_type val =
     (if condition_type = ''from_contains'' then
        contains py (dict_get event ''email_from'' (PStr [])) val
      else if condition_type = ''from_equals'' then
        equals py (dict_get event ''email_from'' (PStr [])) val
      else if condition_type = ''to_contains'' then
        contains py (dict_get event ''email_to'' (PStr [])) val
      else if condition_type = ''to_equals'' then
        equals py (dict_get event ''email_to'' (PStr [])) val
      else if condition_type = ''subject_contains'' then
        contains py (dict_get event ''email_subject'' (PStr [])) val
      else if condition_type = ''subject_equals'' then
        equals py (dict_get event ''email_subject'' (PStr [])) val
      else if condition_type = ''subject_matches'' then
        regex_match py (dict_get event ''email_subject'' (PStr [])) val
      else if condition_type = ''body_contains'' then
        contains py (dict_get event ''email_body'' (PStr [])) val
      else if condition_type = ''has_attachment'' then
        (case has_attachments (dict_get event ''payload'' (PDict [])) of
           Inl e \<Rightarrow> Inl e
         | Inr has_att \<Rightarrow> Inr (py_eq (PBool has_att) val))
      else if condition_type = ''event_type_equals'' then
        Inr (py_eq (dict_get event ''event_type'' PNone) val)
      else if condition_type = ''source_equals'' then
        Inr (py_eq (dict_get event ''source'' PNone) val)
      else Inr False)"

text \<open>The loop over \<open>conditions.items()\<close>: the first failing entry returns \<open>False\<close>.\<close>

fun all_conditions :: "pylib \<Rightarrow> pydict \<Rightarrow> pydict \<Rightarrow> py_error + bool" where
  "all_conditions py event [] = Inr True"
| "all_conditions py event ((condition_type, condition_value) # rest) =
     (case check_condition py event condition_type condition_value of
        Inl e \<Rightarrow> Inl e
      | Inr ok \<Rightarrow> (if \<not> ok then Inr False else all_conditions py event rest))"

text \<open>
  \<open>matches_conditions(event, conditions)\<close>; \<open>conditions\<close> is what the rule's JSON column
  holds, and only a dictionary has \<open>.items()\<close>.
\<close>

definition matches_conditions :: "pylib \<Rightarrow> pydict \<Rightarrow> pyval \<Rightarrow> py_error + bool" where
  "matches_conditions py event conditions =
     (case conditions of
        PDict items \<Rightarrow> all_conditions py event items
      | _ \<Rightarrow> Inl (no_attribute conditions ''items''))"

section \<open>Tables (events.rules, events.events, events.actions)\<close>

text \<open>
  The SQL schema is not part of the sources. The columns are the ones the statements of
  the sources read and write; a row is a record, a table is the list of its rows. A
  UUID is the string \<open>str(uuid)\<close>, a time stamp an integer.
\<close>

type_synonym uuid = string
type_synonym timestamp = int

record rule_row =
  rule_id :: uuid
  rule_name :: string
  rule_enabled :: bool
  rule_priority :: int
  rule_created_at :: timestamp
  rule_conditions :: pyval
  rule_action :: string
  rule_action_config :: pyval
  rule_match_count :: int
  rule_last_matched_at :: "timestamp option"

record event_row =
  ev_id :: uuid
  ev_source :: string
  ev_source_id :: "string option"
  ev_event_type :: string
  ev_payload :: pyval
  ev_email_from :: "string option"
  ev_email_to :: "string option"
  ev_email_subject :: "string option"
  ev_email_body :: "string option"
  ev_email_date :: "timestamp option"
  ev_owner_id :: "uuid option"
  ev_status :: string
  ev_matched_rule_id :: "uuid option"
  ev_route_result :: "pyval option"
  ev_routed_at :: "timestamp option"
  ev_created_at :: timestamp
  ev_updated_at :: timestamp

record action_row =
  act_id :: uuid
  act_event_id :: uuid
  act_rule_id :: uuid
  act_action :: string
  act_input :: pyval
  act_output :: "pyval option"
  act_status :: string
  act_error :: "string option"
  act_started_at :: timestamp
  act_completed_at :: "timestamp option"

record store =
  events :: "event_row list"
  rules :: "rule_row list"
  actions :: "action_row list"

text \<open>A nullable column as the Python value the driver hands over.\<close>

definition opt_str :: "string option \<Rightarrow> pyval" where
  "opt_str v = (case v of None \<Rightarrow> PNone | Some s \<Rightarrow> PStr s)"

definition opt_time :: "timestamp option \<Rightarrow> pyval" where
  "opt_time v = (case v of None \<Rightarrow> PNone | Some t \<Rightarrow> PInt t)"

definition opt_json :: "pyval option \<Rightarrow> pyval" where
  "opt_json v = (case v of None \<Rightarrow> PNone | Some j \<Rightarrow> j)"

text \<open>\<open>dict(row)\<close> of a row fetched with \<open>SELECT *\<close>: every column is a key.\<close>

definition event_dict :: "event_row \<Rightarrow> pydict" where
  "event_dict r =
     [(''id'', PStr (ev_id r)),
      (''source'', PStr (ev_source r)),
      (''source_id'', opt_str (ev_source_id r)),
      (''event_type'', PStr (ev_event_type r)),
      (''payload'', ev_payload r),
      (''email_from'', opt_str (ev_email_from r)),
      (''email_to'', opt_str (ev_email_to r)),
      (''email_subject'', opt_str (ev_email_subject r)),
      (''email_body'', opt_str (ev_email_body r)),
      (''email_date'', opt_time (ev_email_date r)),
      (''owner_id'', opt_str (ev_owner_id r)),
      (''status'', PStr (ev_status r)),
      (''matched_rule_id'', opt_str (ev_matched_rule_id r)),
      (''route_result'', opt_json (ev_route_result r)),
      (''routed_at'', opt_time (ev_routed_at r)),
      (''created_at'', PInt (ev_created_at r)),
      (''updated_at'', PInt (ev_updated_at r))]"

text \<open>\<open>UPDATE ... WHERE id = %s\<close>: every row with that id is rewritten.\<close>

definition update_event :: "uuid \<Rightarrow> (event_row \<Rightarrow> event_row) \<Rightarrow> store \<Rightarrow> store" where
  "update_event i f st = st\<lparr>events := map (\<lambda>r. if ev_id r = i then f r else r) (events st)\<rparr>"

definition update_rule :: "uuid \<Rightarrow> (rule_row \<Rightarrow> rule_row) \<Rightarrow> store \<Rightarrow> store" where
  "update_rule i f st = st\<lparr>rules := map (\<lambda>r. if rule_id r = i then f r else r) (rules st)\<rparr>"

definition update_action :: "uuid \<Rightarrow> (action_row \<Rightarrow> action_row) \<Rightarrow> store \<Rightarrow> store" where
  "update_action i f st = st\<lparr>actions := map (\<lambda>r. if act_id r = i then f r else r) (actions st)\<rparr>"

section \<open>Router: rule selection (domains/events/router.py)\<close>

text \<open>
  \<open>get_enabled_rules\<close>: \<open>WHERE enabled = true ORDER BY priority DESC, created_at ASC\<close>.
  SQL leaves the order of rows that agree on both keys open; the model keeps them in
  table order (a stable sort).
\<close>

definition rule_order_key :: "rule_row \<Rightarrow> int \<times> int" where
  "rule_order_key r = (- rule_priority r, rule_created_at r)"

definition get_enabled_rules :: "rule_row list \<Rightarrow> rule_row list" where
  "get_enabled_rules table = sort_key rule_order_key (filter rule_enabled table)"

text \<open>
  The order in the spec's words, (priority desc, created_at asc): \<open>a\<close> is not after \<open>b\<close>
  when its priority is higher, or the priorities are equal and it was not created later.
\<close>

definition precedes :: "rule_row \<Rightarrow> rule_row \<Rightarrow> bool" where
  "precedes a b =
     (rule_priority a > rule_priority b
      \<or> (rule_priority a = rule_priority b \<and> rule_created_at a \<le> rule_created_at b))"

record route_result =
  rr_rule_id :: uuid
  rr_rule_name :: string
  rr_action :: string
  rr_action_config :: pyval

text \<open>The dictionary \<open>route_event\<close> returns for a rule; \<open>x or {}\<close> replaces a falsy value.\<close>

definition rule_result :: "rule_row \<Rightarrow> route_result" where
  "rule_result r =
     \<lparr>rr_rule_id = rule_id r,
      rr_rule_name = rule_name r,
      rr_action = rule_action r,
      rr_action_config =
        (if truthy (rule_action_config r) then rule_action_config r else PDict [])\<rparr>"

text \<open>The loop of \<open>route_event\<close> over the ordered rules.\<close>

fun first_match :: "pylib \<Rightarrow> pydict \<Rightarrow> rule_row list \<Rightarrow> py_error + route_result option" where
  "first_match py event [] = Inr None"
| "first_match py event (r # rs) =
     (case matches_conditions py event (rule_conditions r) of
        Inl e \<Rightarrow> Inl e
      | Inr True \<Rightarrow> Inr (Some (rule_result r))
      | Inr False \<Rightarrow> first_match py event rs)"

definition route_event :: "pylib \<Rightarrow> rule_row list \<Rightarrow> pydict \<Rightarrow> py_error + route_result option" where
  "route_event py table event = first_match py event (get_enabled_rules table)"

text \<open>\<open>Json(route_result)\<close>, as stored in the event's \<open>route_result\<close> column.\<close>

definition route_result_json :: "route_result \<Rightarrow> pyval" where
  "route_result_json rr =
     PDict [(''rule_id'', PStr (rr_rule_id rr)),
            (''rule_name'', PStr (rr_rule_name rr)),
            (''action'', PStr (rr_action rr)),
            (''action_config'', rr_action_config rr)]"

section \<open>Action executor (domains/events/actions.py)\<close>

text \<open>
  What the handlers call outside the repository's event code is a parameter: the
  Python library of the matcher, \<open>str(x)\<close> and f-string rendering of a value,
  \<open>str.format\<close> with keyword arguments, \<open>json.dumps\<close>, the Notes collaborator's
  \<open>create_note(title, content, tags, folder, frontmatter)\<close> and the task queue's
  \<open>spawn(task_name, params, queue)\<close>. Each may raise (\<open>Inl\<close>).
\<close>

record env =
  python :: pylib
  py_str :: "pyval \<Rightarrow> string"
  str_format :: "string \<Rightarrow> pydict \<Rightarrow> py_error + string"
  json_dumps :: "pyval \<Rightarrow> py_error + string"
  notes_create_note :: "pyval \<Rightarrow> string \<Rightarrow> pyval \<Rightarrow> pyval \<Rightarrow> pydict \<Rightarrow> py_error + pyval"
  absurd_spawn :: "pyval \<Rightarrow> pyval \<Rightarrow> string \<Rightarrow> py_error + pyval"

text \<open>Sequencing of steps that may raise: the first exception ends the computation.\<close>

definition and_then :: "py_error + 'a \<Rightarrow> ('a \<Rightarrow> py_error + 'b) \<Rightarrow> py_error + 'b" where
  "and_then m f = (case m of Inl e \<Rightarrow> Inl e | Inr x \<Rightarrow> f x)"

text \<open>\<open>v.get(k, default)\<close> on any value: only a dictionary has the method.\<close>

definition py_get :: "pyval \<Rightarrow> string \<Rightarrow> pyval \<Rightarrow> py_error + pyval" where
  "py_get v k dflt =
     (case v of PDict d \<Rightarrow> Inr (dict_get d k dflt) | _ \<Rightarrow> Inl (no_attribute v ''get''))"

text \<open>\<open>"\n".join(lines)\<close>: every element has to be a string.\<close>

fun join_lines :: "pyval list \<Rightarrow> py_error + string" where
  "join_lines [] = Inr []"
| "join_lines [PStr s] = Inr s"
| "join_lines (PStr s # rest) =
     (case join_lines rest of Inl e \<Rightarrow> Inl e | Inr t \<Rightarrow> Inr (s @ [CHR 0x0A] @ t))"
| "join_lines (v # rest) =
     Inl (TypeError (''sequence item: expected str instance, '' @ type_name v @ '' found''))"

definition format_event_as_note :: "env \<Rightarrow> pydict \<Rightarrow> py_error + string" where
  "format_event_as_note en event =
     (if py_eq (dict_get event ''source'' PNone) (PStr ''email'') then
        join_lines
          [PStr (''**From:** '' @ py_str en (dict_get event ''email_from'' (PStr ''Unknown''))),
           PStr (''**To:** '' @ py_str en (dict_get event ''email_to'' (PStr ''Unknown''))),
           PStr (''**Date:** '' @ py_str en (dict_get event ''email_date'' (PStr ''Unknown''))),
           PStr [],
           PStr ''---'',
           PStr [],
           dict_get event ''email_body'' (PStr [])]
      else
        and_then (json_dumps en (dict_get event ''payload'' (PDict []))) (\<lambda>dump.
          join_lines
            [PStr (''**Source:** '' @ py_str en (dict_get event ''source'' PNone)),
             PStr (''**Type:** '' @ py_str en (dict_get event ''event_type'' PNone)),
             PStr [],
             PStr ''```json'',
             PStr dump,
             PStr ''```'']))"

text \<open>\<open>title_template.format(subject=..., from_=..., date=...)\<close>: a string method.\<close>

definition note_title :: "env \<Rightarrow> pydict \<Rightarrow> pyval \<Rightarrow> py_error + pyval" where
  "note_title en event title_template =
     (if truthy title_template then
        (case title_template of
           PStr t \<Rightarrow>
             and_then
               (str_format en t
                  [(''subject'', dict_get event ''email_subject'' (PStr [])),
                   (''from_'', dict_get event ''email_from'' (PStr [])),
                   (''date'', dict_get event ''email_date'' (PStr []))])
               (\<lambda>title. Inr (PStr title))
         | _ \<Rightarrow> Inl (no_attribute title_template ''format''))
      else
        Inr (if truthy (dict_get event ''email_subject'' PNone)
             then dict_get event ''email_subject'' PNone
             else PStr ''Untitled Event''))"

definition action_create_note :: "env \<Rightarrow> pydict \<Rightarrow> pyval \<Rightarrow> py_error + pydict" where
  "action_create_note en event config =
     and_then (py_get config ''folder'' (PStr ''Inbox'')) (\<lambda>folder.
     and_then (py_get config ''tags'' (PList [])) (\<lambda>tags.
     and_then (py_get config ''title_template'' PNone) (\<lambda>title_template.
     and_then (note_title en event title_template) (\<lambda>title.
     and_then (format_event_as_note en event) (\<lambda>content.
     and_then
       (notes_create_note en title content tags folder
          [(''source'', PStr ''event''),
           (''event_id'', PStr (py_str en (dict_get event ''id'' PNone)))])
       (\<lambda>note.
     and_then (py_get note ''id'' PNone) (\<lambda>note_id.
     and_then (py_get note ''file_path'' PNone) (\<lambda>note_path.
       Inr [(''success'', PBool True), (''note_id'', note_id), (''note_path'', note_path)]))))))))"

text \<open>
  \<open>COALESCE(route_result, '{}'::jsonb) || %s::jsonb\<close> with an object on the right: two
  objects merge, an array gets the object appended, a scalar and the object become a
  two-element array.
\<close>

definition jsonb_concat_object :: "pyval option \<Rightarrow> pydict \<Rightarrow> pyval" where
  "jsonb_concat_object old obj =
     (case old of
        None \<Rightarrow> PDict (fold (\<lambda>(k, v) d. dict_set d k v) obj [])
      | Some (PDict d) \<Rightarrow> PDict (fold (\<lambda>(k, v) d. dict_set d k v) obj d)
      | Some (PList xs) \<Rightarrow> PList (xs @ [PDict obj])
      | Some v \<Rightarrow> PList [v, PDict obj])"

definition action_tag :: "store \<Rightarrow> uuid \<Rightarrow> pyval \<Rightarrow> (py_error + pydict) \<times> store" where
  "action_tag st event_id config =
     (case py_get config ''tags'' (PList []) of
        Inl e \<Rightarrow> (Inl e, st)
      | Inr tags \<Rightarrow>
          if \<not> truthy tags then
            (Inr [(''success'', PBool True), (''message'', PStr ''No tags specified'')], st)
          else
            (Inr [(''success'', PBool True), (''tags_added'', tags)],
             update_event event_id
               (\<lambda>r. r\<lparr>ev_route_result :=
                         Some (jsonb_concat_object (ev_route_result r) [(''tags'', tags)])\<rparr>)
               st))"

definition action_ignore :: "uuid \<Rightarrow> pydict" where
  "action_ignore event_id = [(''success'', PBool True), (''message'', PStr ''Event ignored'')]"

text \<open>\<open>task_params[key] = value\<close>: item assignment with a string key needs a dictionary.\<close>

definition py_setitem :: "pyval \<Rightarrow> string \<Rightarrow> pyval \<Rightarrow> py_error + pyval" where
  "py_setitem target k v =
     (case target of
        PDict d \<Rightarrow> Inr (PDict (dict_set d k v))
      | _ \<Rightarrow> Inl (TypeError (type_name target @ '' object does not support item assignment'')))"

text \<open>
  \<open>_action_spawn_task\<close>. The event round-trips through JSON unchanged, its values being
  JSON-native here. The inner \<open>try\<close> covers the spawn and the reading of its result.
\<close>

definition action_spawn_task :: "env \<Rightarrow> pydict \<Rightarrow> pyval \<Rightarrow> py_error + pydict" where
  "action_spawn_task en event config =
     and_then (py_get config ''task_name'' PNone) (\<lambda>task_name.
       if \<not> truthy task_name then
         Inr [(''success'', PBool False), (''error'', PStr ''No task_name specified'')]
       else
         and_then (py_get config ''task_params'' (PDict [])) (\<lambda>task_params0.
         and_then (py_setitem task_params0 ''event_id''
                     (PStr (py_str en (dict_get event ''id'' PNone)))) (\<lambda>task_params1.
         and_then (py_setitem task_params1 ''event'' (PDict event)) (\<lambda>task_params.
           (case and_then (absurd_spawn en task_name task_params ''default'')
                   (\<lambda>result. py_get result ''task_id'' PNone) of
              Inr task_id \<Rightarrow> Inr [(''success'', PBool True), (''task_id'', PStr (py_str en task_id))]
            | Inl e \<Rightarrow>
                Inr [(''success'', PBool False),
                     (''error'', PStr (''Failed to spawn task: '' @ exc_str e))])))))"

text \<open>
  \<open>_log_action_start\<close>: the INSERT. The new row's id and its \<open>started_at\<close> are column
  defaults of the database, given here as arguments.
\<close>

definition log_action_start ::
  "uuid \<Rightarrow> timestamp \<Rightarrow> store \<Rightarrow> uuid \<Rightarrow> uuid \<Rightarrow> string \<Rightarrow> pyval \<Rightarrow> store" where
  "log_action_start new_id started st event_id rid action action_input =
     st\<lparr>actions := actions st @
          [\<lparr>act_id = new_id, act_event_id = event_id, act_rule_id = rid,
            act_action = action, act_input = action_input, act_output = None,
            act_status = ''running'', act_error = None,
            act_started_at = started, act_completed_at = None\<rparr>]\<rparr>"

definition log_action_complete ::
  "timestamp \<Rightarrow> store \<Rightarrow> uuid \<Rightarrow> pydict \<Rightarrow> string option \<Rightarrow> store" where
  "log_action_complete utcnow st action_id result error =
     update_action action_id
       (\<lambda>r. r\<lparr>act_status :=
                 (if truthy (dict_get result ''success'' PNone) then ''completed'' else ''failed''),
               act_output := Some (PDict result),
               act_error := error,
               act_completed_at := Some utcnow\<rparr>)
       st"

text \<open>The dispatch inside the \<open>try\<close>: the handler's result or the exception it raised.\<close>

definition dispatch ::
  "env \<Rightarrow> store \<Rightarrow> uuid \<Rightarrow> string \<Rightarrow> pyval \<Rightarrow> pydict \<Rightarrow> (py_error + pydict) \<times> store" where
  "dispatch en st event_id action action_config event =
     (if action = ''create_note'' then (action_create_note en event action_config, st)
      else if action = ''tag'' then action_tag st event_id action_config
      else if action = ''ignore'' then (Inr (action_ignore event_id), st)
      else if action = ''spawn_task'' then (action_spawn_task en event action_config, st)
      else (Inr [(''success'', PBool False), (''error'', PStr (''Unknown action: '' @ action))], st))"

definition execute_action ::
  "env \<Rightarrow> uuid \<Rightarrow> timestamp \<Rightarrow> timestamp \<Rightarrow> store \<Rightarrow> uuid \<Rightarrow> uuid \<Rightarrow> string \<Rightarrow> pyval \<Rightarrow> pydict
     \<Rightarrow> pydict \<times> store" where
  "execute_action en new_id started utcnow st event_id rid action action_config event =
     (let st1 = log_action_start new_id started st event_id rid action action_config in
      case dispatch en st1 event_id action action_config event of
        (Inr result, st2) \<Rightarrow> (result, log_action_complete utcnow st2 new_id result None)
      | (Inl e, st2) \<Rightarrow>
          (let error_result = [(''success'', PBool False), (''error'', PStr (exc_str e))]
           in (error_result,
               log_action_complete utcnow st2 new_id error_result (Some (exc_str e)))))"

section \<open>Router: processing and ingestion (domains/events/router.py)\<close>

text \<open>
  \<open>process_event(event_id)\<close>. The source reads the clock with \<open>datetime.utcnow()\<close> at
  several places; \<open>utcnow n\<close> is the value of the \<open>n\<close>-th read of one call, in the order
  of the source text along the path taken. \<open>new_id\<close> and \<open>started\<close> are the defaults the
  database gives the ActionLog row. A raised exception leaves the function before any
  statement has been executed, so the store comes back as it was.
\<close>

definition process_event ::
  "env \<Rightarrow> uuid \<Rightarrow> timestamp \<Rightarrow> (nat \<Rightarrow> timestamp) \<Rightarrow> store \<Rightarrow> uuid
     \<Rightarrow> (py_error + pydict) \<times> store" where
  "process_event en new_id started utcnow st event_id =
     (case find (\<lambda>r. ev_id r = event_id) (events st) of
        None \<Rightarrow> (Inr [(''error'', PStr ''Event not found'')], st)
      | Some row \<Rightarrow>
          (let event = event_dict row in
           if ev_status row \<noteq> ''pending'' then
             (Inr [(''error'', PStr (''Event already processed: '' @ ev_status row))], st)
           else
             (case route_event (python en) (rules st) event of
                Inl e \<Rightarrow> (Inl e, st)
              | Inr None \<Rightarrow>
                  (Inr [(''status'', PStr ''unmatched''), (''event_id'', PStr event_id)],
                   update_event event_id
                     (\<lambda>r. r\<lparr>ev_status := ''unmatched'',
                             ev_routed_at := Some (utcnow 0),
                             ev_updated_at := utcnow 1\<rparr>)
                     st)
              | Inr (Some route_result) \<Rightarrow>
                  (let st1 =
                         update_event event_id
                           (\<lambda>r. r\<lparr>ev_matched_rule_id := Some (rr_rule_id route_result),
                                   ev_route_result := Some (route_result_json route_result),
                                   ev_routed_at := Some (utcnow 0),
                                   ev_updated_at := utcnow 1\<rparr>)
                           st;
                       st2 =
                         update_rule (rr_rule_id route_result)
                           (\<lambda>r. r\<lparr>rule_match_count := rule_match_count r + 1,
                                   rule_last_matched_at := Some (utcnow 2)\<rparr>)
                           st1;
                       (action_result, st3) =
                         execute_action en new_id started (utcnow 3) st2 event_id
                           (rr_rule_id route_result) (rr_action route_result)
                           (rr_action_config route_result) event;
                       new_status =
                         (if truthy (dict_get action_result ''success'' PNone)
                          then ''processed'' else ''failed'');
                       st4 =
                         update_event event_id
                           (\<lambda>r. r\<lparr>ev_status := new_status, ev_updated_at := utcnow 4\<rparr>)
                           st3
                   in (Inr [(''status'', PStr new_status),
                            (''event_id'', PStr event_id),
                            (''rule_id'', PStr (rr_rule_id route_result)),
                            (''action'', PStr (rr_action route_result)),
                            (''action_result'', PDict action_result)],
                       st4)))))"

text \<open>\<open>s.split(",")\<close>.\<close>

fun split_on :: "char \<Rightarrow> string \<Rightarrow> string list" where
  "split_on sep [] = [[]]"
| "split_on sep (c # cs) =
     (if c = sep then [] # split_on sep cs
      else (case split_on sep cs of
              [] \<Rightarrow> [[c]]
            | w # ws \<Rightarrow> (c # w) # ws))"

text \<open>
  \<open>_get_owner_for_inbox\<close>. The query on the auth tables (\<open>WHERE LOWER(i.email) = %s
  LIMIT 1\<close>) is the parameter \<open>inbox_owner\<close>: the \<open>user_id\<close> of the row it returns for an
  address, if it returns one. The address it is asked for is \<open>addr.strip().lower()\<close>.
\<close>

fun first_owner :: "pylib \<Rightarrow> (string \<Rightarrow> uuid option) \<Rightarrow> string list \<Rightarrow> uuid option" where
  "first_owner py inbox_owner [] = None"
| "first_owner py inbox_owner (addr # rest) =
     (case inbox_owner (str_lower py (str_strip py addr)) of
        Some user_id \<Rightarrow> Some user_id
      | None \<Rightarrow> first_owner py inbox_owner rest)"

definition get_owner_for_inbox ::
  "pylib \<Rightarrow> (string \<Rightarrow> uuid option) \<Rightarrow> string option \<Rightarrow> uuid option" where
  "get_owner_for_inbox py inbox_owner email_to =
     (case email_to of
        None \<Rightarrow> None
      | Some s \<Rightarrow>
          (if s = [] then None else first_owner py inbox_owner (split_on CHR '','' s)))"

text \<open>The arguments of \<open>create_event\<close>.\<close>

record event_args =
  arg_source :: string
  arg_source_id :: "string option"
  arg_event_type :: string
  arg_payload :: pyval
  arg_email_from :: "string option"
  arg_email_to :: "string option"
  arg_email_subject :: "string option"
  arg_email_body :: "string option"
  arg_email_date :: "timestamp option"
  arg_owner_id :: "uuid option"

text \<open>
  Modelled from the spec: the column defaults of \<open>events.events\<close>, whose schema is not in
  the sources. The INSERT names ten columns; the others get the state the spec gives a
  fresh event (status \<open>pending\<close>, no matched rule, no route result, not routed) and the
  database's \<open>now()\<close> for \<open>created_at\<close> and \<open>updated_at\<close>; the id is generated.
\<close>

definition inserted_row :: "uuid \<Rightarrow> timestamp \<Rightarrow> event_args \<Rightarrow> uuid option \<Rightarrow> event_row" where
  "inserted_row new_id db_now a owner =
     \<lparr>ev_id = new_id, ev_source = arg_source a, ev_source_id = arg_source_id a,
      ev_event_type = arg_event_type a, ev_payload = arg_payload a,
      ev_email_from = arg_email_from a, ev_email_to = arg_email_to a,
      ev_email_subject = arg_email_subject a, ev_email_body = arg_email_body a,
      ev_email_date = arg_email_date a, ev_owner_id = owner,
      ev_status = ''pending'', ev_matched_rule_id = None, ev_route_result = None,
      ev_routed_at = None, ev_created_at = db_now, ev_updated_at = db_now\<rparr>"

text \<open>
  Modelled from the spec: the unique index that \<open>ON CONFLICT (source, source_id)\<close> names,
  whose declaration is not in the sources. In the spec's words the pair (source,
  source_id) is unique and re-ingestion updates rather than duplicates: a stored row
  conflicts with the arguments when it has the same source and the same source_id.
\<close>

definition conflicts :: "event_args \<Rightarrow> event_row \<Rightarrow> bool" where
  "conflicts a r = (ev_source r = arg_source a \<and> ev_source_id r = arg_source_id a)"

definition create_event ::
  "pylib \<Rightarrow> (string \<Rightarrow> uuid option) \<Rightarrow> uuid \<Rightarrow> timestamp \<Rightarrow> store \<Rightarrow> event_args
     \<Rightarrow> pydict \<times> store" where
  "create_event py inbox_owner new_id db_now st a =
     (let owner =
            (if arg_owner_id a = None \<and> truthy (opt_str (arg_email_to a))
             then get_owner_for_inbox py inbox_owner (arg_email_to a)
             else arg_owner_id a)
      in case find (conflicts a) (events st) of
           Some old \<Rightarrow>
             (event_dict (old\<lparr>ev_payload := arg_payload a, ev_updated_at := db_now\<rparr>),
              st\<lparr>events :=
                   map (\<lambda>r. if conflicts a r
                            then r\<lparr>ev_payload := arg_payload a, ev_updated_at := db_now\<rparr>
                            else r)
                     (events st)\<rparr>)
         | None \<Rightarrow>
             (event_dict (inserted_row new_id db_now a owner),
              st\<lparr>events := events st @ [inserted_row new_id db_now a owner]\<rparr>))"

section \<open>Periodic sync loop (integrations/resend/scheduler.py)\<close>

text \<open>
  \<open>resend_scheduler(params, ctx)\<close> loops forever. One pass of the loop body is
  \<open>scheduler_iteration\<close>: from the loop variables and what \<open>ctx.step\<close> returned for the
  sync, the new loop variables and the seconds handed to \<open>ctx.sleep_for\<close>. The loop is
  run over the sequence of results the sync steps give, as far as that sequence goes;
  a sync step that raises ends the task.
\<close>

record sched_params =
  interval_seconds :: "int option"
  max_interval_seconds :: "int option"

record sched_vars =
  iteration :: nat
  consecutive_errors :: nat

definition scheduler_iteration :: "int \<Rightarrow> int \<Rightarrow> sched_vars \<Rightarrow> pydict \<Rightarrow> sched_vars \<times> int" where
  "scheduler_iteration interval max_interval vars result =
     (let it = iteration vars + 1 in
      if truthy (dict_get result ''error'' PNone) then
        (let errors = consecutive_errors vars + 1;
             backoff = min (interval * 2 ^ errors) max_interval
         in (\<lparr>iteration = it, consecutive_errors = errors\<rparr>, backoff))
      else (\<lparr>iteration = it, consecutive_errors = 0\<rparr>, interval))"

fun scheduler_loop ::
  "int \<Rightarrow> int \<Rightarrow> sched_vars \<Rightarrow> (py_error + pydict) list \<Rightarrow> int list \<times> py_error option" where
  "scheduler_loop interval max_interval vars [] = ([], None)"
| "scheduler_loop interval max_interval vars (Inl e # later) = ([], Some e)"
| "scheduler_loop interval max_interval vars (Inr result # later) =
     (case scheduler_iteration interval max_interval vars result of
        (vars', seconds) \<Rightarrow>
          (case scheduler_loop interval max_interval vars' later of
             (sleeps, raised) \<Rightarrow> (seconds # sleeps, raised)))"

definition resend_scheduler ::
  "sched_params \<Rightarrow> (py_error + pydict) list \<Rightarrow> int list \<times> py_error option" where
  "resend_scheduler params sync_results =
     scheduler_loop
       (case interval_seconds params of None \<Rightarrow> 60 | Some i \<Rightarrow> i)
       (case max_interval_seconds params of None \<Rightarrow> 3600 | Some m \<Rightarrow> m)
       \<lparr>iteration = 0, consecutive_errors = 0\<rparr>
       sync_results"

section \<open>Scheduler spawning (core/worker/schedulers.py)\<close>

text \<open>
  The task queue engine keeps one table \<open>absurd.t_<queue>\<close> per queue lane; a lane whose
  table does not exist is \<open>None\<close>. The engine's \<open>spawn(task_name, params, queue)\<close> is a
  parameter: it returns or raises, and leaves the tables in some new state.
\<close>

record task_row =
  task_id :: string
  task_name :: string
  task_state :: string
  task_attempts :: int

type_synonym queue_db = "string \<Rightarrow> task_row list option"

type_synonym spawn_fn = "queue_db \<Rightarrow> pyval \<Rightarrow> pyval \<Rightarrow> pyval \<Rightarrow> (py_error + pyval) \<times> queue_db"

definition ends_with :: "string \<Rightarrow> string \<Rightarrow> bool" where
  "ends_with suffix s =
     (length suffix \<le> length s \<and> drop (length s - length suffix) s = suffix)"

text \<open>\<open>WHERE task_name LIKE '%.scheduler' AND state IN ('pending', 'running', 'sleeping')\<close>.\<close>

definition active_scheduler_row :: "task_row \<Rightarrow> bool" where
  "active_scheduler_row r =
     (ends_with ''.scheduler'' (task_name r)
      \<and> task_state r \<in> set [''pending'', ''running'', ''sleeping''])"

text \<open>
  The loop of \<open>get_running_schedulers\<close> over the three queue names it lists. A query on a
  missing table raises and the \<open>except\<close> passes on to the next queue. (All queries share
  one connection; whether a failed statement also makes the later ones fail is the
  database driver's matter, and the theorems below are about lanes whose three tables
  exist.)
\<close>

fun collect_running ::
  "queue_db \<Rightarrow> string list \<Rightarrow> (string \<Rightarrow> task_row option) \<Rightarrow> (string \<Rightarrow> task_row option)" where
  "collect_running db [] running = running"
| "collect_running db (queue # later) running =
     (case db queue of
        None \<Rightarrow> collect_running db later running
      | Some rows \<Rightarrow>
          collect_running db later
            (fold (\<lambda>row acc. acc(task_name row := Some row))
               (filter active_scheduler_row rows) running))"

definition get_running_schedulers :: "queue_db \<Rightarrow> (string \<Rightarrow> task_row option)" where
  "get_running_schedulers db =
     collect_running db [''default'', ''obsidian'', ''email''] (\<lambda>name. None)"

text \<open>\<open>task_name in running\<close>: the keys are strings; a list or a dictionary cannot be hashed.\<close>

definition running_instance ::
  "(string \<Rightarrow> task_row option) \<Rightarrow> pyval \<Rightarrow> py_error + task_row option" where
  "running_instance running name =
     (case name of
        PStr n \<Rightarrow> Inr (running n)
      | PList xs \<Rightarrow> Inl (TypeError ''unhashable type: list'')
      | PDict d \<Rightarrow> Inl (TypeError ''unhashable type: dict'')
      | _ \<Rightarrow> Inr None)"

definition spawn_scheduler ::
  "spawn_fn \<Rightarrow> (pyval \<Rightarrow> string) \<Rightarrow> queue_db \<Rightarrow> pydict \<Rightarrow> (py_error + pydict) \<times> queue_db" where
  "spawn_scheduler spawn to_str db config =
     (case map_of config ''task_name'' of
        None \<Rightarrow> (Inl (KeyError ''task_name''), db)
      | Some name \<Rightarrow>
          (let queue = dict_get config ''queue'' (PStr ''default'');
               params = dict_get config ''params'' (PDict []);
               singleton = dict_get config ''singleton'' (PBool True)
           in case (if truthy singleton
                    then running_instance (get_running_schedulers db) name
                    else Inr None) of
                Inl e \<Rightarrow> (Inl e, db)
              | Inr (Some row) \<Rightarrow>
                  (Inr [(''spawned'', PBool False),
                        (''reason'', PStr ''already_running''),
                        (''task_id'', PStr (task_id row))],
                   db)
              | Inr None \<Rightarrow>
                  (case spawn db name params queue of
                     (Inl e, db') \<Rightarrow> (Inl e, db')
                   | (Inr result, db') \<Rightarrow>
                       (case py_get result ''task_id'' PNone of
                          Inl e \<Rightarrow> (Inl e, db')
                        | Inr tid \<Rightarrow>
                            (Inr [(''spawned'', PBool True),
                                  (''task_name'', name),
                                  (''queue'', queue),
                                  (''task_id'', PStr (to_str tid))],
                             db')))))"

text \<open>
  \<open>spawn_all_schedulers\<close>, over the descriptors that \<open>discover_schedulers\<close> found (the
  discovery imports modules found on disk; its outcome is the argument). The log line of
  a skipped descriptor reads \<open>config['task_name']\<close>.
\<close>

fun spawn_all_schedulers ::
  "spawn_fn \<Rightarrow> (pyval \<Rightarrow> string) \<Rightarrow> queue_db \<Rightarrow> pydict list \<Rightarrow> (py_error + pydict list) \<times> queue_db" where
  "spawn_all_schedulers spawn to_str db [] = (Inr [], db)"
| "spawn_all_schedulers spawn to_str db (config # later) =
     (if \<not> truthy (dict_get config ''enabled'' (PBool True)) then
        (case map_of config ''task_name'' of
           None \<Rightarrow> (Inl (KeyError ''task_name''), db)
         | Some name \<Rightarrow>
             (case spawn_all_schedulers spawn to_str db later of
                (Inl e, db') \<Rightarrow> (Inl e, db')
              | (Inr results, db') \<Rightarrow>
                  (Inr ([(''spawned'', PBool False),
                         (''reason'', PStr ''disabled''),
                         (''config'', PDict config)] # results),
                   db')))
      else
        (case spawn_scheduler spawn to_str db config of
           (Inl e, db') \<Rightarrow> (Inl e, db')
         | (Inr result, db') \<Rightarrow>
             (case spawn_all_schedulers spawn to_str db' later of
                (Inl e, db'') \<Rightarrow> (Inl e, db'')
              | (Inr results, db'') \<Rightarrow>
                  (Inr (dict_set result ''config'' (PDict config) # results), db''))))"

text \<open>
  The claim's words: an active instance of a task name (state pending, running or
  sleeping) exists in a queue lane, for the lanes \<open>get_running_schedulers\<close> lists.
\<close>

definition active_instance :: "queue_db \<Rightarrow> string \<Rightarrow> bool" where
  "active_instance db name =
     list_ex
       (\<lambda>queue. case db queue of
                  None \<Rightarrow> False
                | Some rows \<Rightarrow>
                    list_ex (\<lambda>r. task_name r = name
                                 \<and> task_state r \<in> set [''pending'', ''running'', ''sleeping''])
                      rows)
       [''default'', ''obsidian'', ''email'']"

definition lanes_exist :: "queue_db \<Rightarrow> bool" where
  "lanes_exist db = list_all (\<lambda>queue. db queue \<noteq> None) [''default'', ''obsidian'', ''email'']"

section \<open>Sample parameters\<close>

text \<open>
  Concrete values for the parameters, used where a statement is evaluated on an example.
  The examples are ASCII strings, on which the sample library does what Python does:
  \<open>lower\<close> maps \<open>A\<close> to \<open>Z\<close> onto \<open>a\<close> to \<open>z\<close>, \<open>strip\<close> removes the ASCII white space
  at both ends, and the sample engine rejects the pattern \<open>(\<close> with \<open>re.error\<close>, takes
  \<open>\d\<close> as a digit and \<open>\D\<close> as a character that is not a digit, and searches for any
  other pattern as a literal (the examples use words only), ignoring case when
  \<open>IGNORECASE\<close> is among the flags. The sample queue engine appends a pending task to the
  lane's table.
\<close>

definition ascii_lower_char :: "char \<Rightarrow> char" where
  "ascii_lower_char c =
     (case map_of (zip ''ABCDEFGHIJKLMNOPQRSTUVWXYZ'' ''abcdefghijklmnopqrstuvwxyz'') c of
        None \<Rightarrow> c
      | Some l \<Rightarrow> l)"

definition ascii_lower :: "string \<Rightarrow> string" where
  "ascii_lower s = map ascii_lower_char s"

definition ascii_space :: "char \<Rightarrow> bool" where
  "ascii_space c = (c \<in> set [CHR '' '', CHR 0x09, CHR 0x0A, CHR 0x0B, CHR 0x0C, CHR 0x0D])"

definition ascii_strip :: "string \<Rightarrow> string" where
  "ascii_strip s = rev (dropWhile ascii_space (rev (dropWhile ascii_space s)))"

definition ascii_digit :: "char \<Rightarrow> bool" where
  "ascii_digit c = (c \<in> set ''0123456789'')"

definition sample_regex :: regex where
  "sample_regex flags p =
     (if p = ''('' then Inl (ReError ''missing ), unterminated subpattern at position 0'')
      else if p = [CHR 0x5C, CHR ''d''] then Inr (\<lambda>t. list_ex ascii_digit t)
      else if p = [CHR 0x5C, CHR ''D''] then Inr (\<lambda>t. list_ex (\<lambda>c. \<not> ascii_digit c) t)
      else if IGNORECASE \<in> set flags then Inr (\<lambda>t. str_in (ascii_lower p) (ascii_lower t))
      else Inr (\<lambda>t. str_in p t))"

definition sample_pylib :: pylib where
  "sample_pylib =
     \<lparr>str_lower = ascii_lower, str_strip = ascii_strip, re_compile = sample_regex\<rparr>"

definition sample_env :: env where
  "sample_env =
     \<lparr>python = sample_pylib,
      py_str = (\<lambda>v. case v of PStr s \<Rightarrow> s | _ \<Rightarrow> type_name v),
      str_format = (\<lambda>t kw. Inr t),
      json_dumps = (\<lambda>v. Inr ''{}''),
      notes_create_note =
        (\<lambda>title content tags folder fm. Inl (OtherError ''vault not configured'')),
      absurd_spawn = (\<lambda>name params queue. Inr (PDict [(''task_id'', PStr ''t-1'')]))\<rparr>"

definition sample_spawn :: spawn_fn where
  "sample_spawn db name params queue =
     (case queue of
        PStr q \<Rightarrow>
          (Inr (PDict [(''task_id'', PStr ''t-new'')]),
           db(q := Some ((case db q of None \<Rightarrow> [] | Some rows \<Rightarrow> rows) @
                [\<lparr>task_id = ''t-new'',
                  task_name = (case name of PStr n \<Rightarrow> n | _ \<Rightarrow> []),
                  task_state = ''pending'', task_attempts = 0\<rparr>])))
      | _ \<Rightarrow> (Inl (TypeError ''queue name must be a string''), db))"

section \<open>Well-typed matcher inputs\<close>

text \<open>
  The condition kinds \<open>_check_condition\<close> knows, the text predicates with the event field
  each reads, and the inputs on which the helpers are used at the types their
  signatures declare (\<open>text: str\<close>, \<open>substring: str\<close>, \<open>pattern: str\<close>): a text field or
  a condition value is a string or falsy, the payload is a dictionary, and compiling a
  pattern raises nothing but \<open>re.error\<close>.
\<close>

definition known_condition_types :: "string list" where
  "known_condition_types =
     [''from_contains'', ''from_equals'', ''to_contains'', ''to_equals'',
      ''subject_contains'', ''subject_equals'', ''subject_matches'', ''body_contains'',
      ''has_attachment'', ''event_type_equals'', ''source_equals'']"

definition text_conditions :: "(string \<times> string) list" where
  "text_conditions =
     [(''from_contains'', ''email_from''), (''from_equals'', ''email_from''),
      (''to_contains'', ''email_to''), (''to_equals'', ''email_to''),
      (''subject_contains'', ''email_subject''), (''subject_equals'', ''email_subject''),
      (''body_contains'', ''email_body'')]"

definition str_or_falsy :: "pyval \<Rightarrow> bool" where
  "str_or_falsy v = (case v of PStr s \<Rightarrow> True | _ \<Rightarrow> \<not> truthy v)"

definition event_well_typed :: "pydict \<Rightarrow> bool" where
  "event_well_typed event =
     (str_or_falsy (dict_get event ''email_from'' (PStr []))
      \<and> str_or_falsy (dict_get event ''email_to'' (PStr []))
      \<and> str_or_falsy (dict_get event ''email_subject'' (PStr []))
      \<and> str_or_falsy (dict_get event ''email_body'' (PStr []))
      \<and> (case dict_get event ''payload'' (PDict []) of PDict d \<Rightarrow> True | _ \<Rightarrow> False))"

definition condition_well_typed :: "pylib \<Rightarrow> string \<Rightarrow> pyval \<Rightarrow> bool" where
  "condition_well_typed py condition_type val =
     (if condition_type \<in> set (map fst text_conditions) then str_or_falsy val
      else if condition_type = ''subject_matches'' then
        (case val of
           PStr p \<Rightarrow>
             (case re_compile py [IGNORECASE] p of
                Inl e \<Rightarrow> is_re_error e
              | Inr search \<Rightarrow> True)
         | _ \<Rightarrow> \<not> truthy val)
      else True)"

definition conditions_well_typed :: "pylib \<Rightarrow> pydict \<Rightarrow> bool" where
  "conditions_well_typed py conds = list_all (\<lambda>(k, v). condition_well_typed py k v) conds"

section \<open>Example data\<close>

text \<open>
  The rule and the event of the spec's scenario A, and a rule whose \<open>from_contains\<close>
  value is a number instead of a string.
\<close>

definition support_rule :: rule_row where
  "support_rule =
     \<lparr>rule_id = ''r-support'', rule_name = ''support'', rule_enabled = True,
      rule_priority = 10, rule_created_at = 1,
      rule_conditions = PDict [(''to_contains'', PStr ''support@'')],
      rule_action = ''tag'', rule_action_config = PDict [(''tags'', PList [PStr ''support''])],
      rule_match_count = 0, rule_last_matched_at = None\<rparr>"

definition number_rule :: rule_row where
  "number_rule =
     \<lparr>rule_id = ''r-number'', rule_name = ''number'', rule_enabled = True,
      rule_priority = 20, rule_created_at = 2,
      rule_conditions = PDict [(''from_contains'', PInt 5)],
      rule_action = ''ignore'', rule_action_config = PDict [],
      rule_match_count = 0, rule_last_matched_at = None\<rparr>"

definition fallback_rule :: rule_row where
  "fallback_rule =
     \<lparr>rule_id = ''r-fallback'', rule_name = ''fallback'', rule_enabled = True,
      rule_priority = 5, rule_created_at = 0,
      rule_conditions = PDict [(''subject_contains'', PStr ''help'')],
      rule_action = ''ignore'', rule_action_config = PNone,
      rule_match_count = 0, rule_last_matched_at = None\<rparr>"

definition support_event :: event_row where
  "support_event =
     \<lparr>ev_id = ''e-1'', ev_source = ''email'', ev_source_id = Some ''m-1'',
      ev_event_type = ''email.received'', ev_payload = PDict [],
      ev_email_from = Some ''alice@x.com'', ev_email_to = Some ''support@x.com'',
      ev_email_subject = Some ''Help'', ev_email_body = Some ''hello'',
      ev_email_date = None, ev_owner_id = None, ev_status = ''pending'',
      ev_matched_rule_id = None, ev_route_result = None, ev_routed_at = None,
      ev_created_at = 5, ev_updated_at = 5\<rparr>"

text \<open>
  Arguments of \<open>create_event\<close>: a re-ingestion of the scenario's email with a new
  payload.
\<close>

definition reingest_args :: event_args where
  "reingest_args =
     \<lparr>arg_source = ''email'', arg_source_id = Some ''m-1'',
      arg_event_type = ''email.bounced'', arg_payload = PDict [(''attempt'', PInt 2)],
      arg_email_from = Some ''bob@y.com'', arg_email_to = Some ''sales@x.com'',
      arg_email_subject = Some ''Other'', arg_email_body = None,
      arg_email_date = Some 3, arg_owner_id = Some ''u-9''\<rparr>"

text \<open>
  Queue tables and scheduler descriptors: the email scheduler of the sources, sleeping on
  its lane; a daily report task, declared singleton, running on the default lane; a
  cleanup scheduler, declared singleton, pending on a lane of its own; and the email
  scheduler's descriptor without the \<open>singleton\<close> key.
\<close>

definition example_lanes :: queue_db where
  "example_lanes =
     (\<lambda>queue. None)
       (''default'' :=
          Some [\<lparr>task_id = ''t-7'', task_name = ''reports.daily'', task_state = ''running'',
                  task_attempts = 1\<rparr>],
        ''obsidian'' := Some [],
        ''email'' :=
          Some [\<lparr>task_id = ''t-3'', task_name = ''resend.scheduler'', task_state = ''sleeping'',
                  task_attempts = 1\<rparr>],
        ''cleanup'' :=
          Some [\<lparr>task_id = ''t-9'', task_name = ''cleanup.scheduler'', task_state = ''pending'',
                  task_attempts = 0\<rparr>])"

definition cleanup_config :: pydict where
  "cleanup_config =
     [(''task_name'', PStr ''cleanup.scheduler''), (''queue'', PStr ''cleanup''),
      (''params'', PDict []), (''singleton'', PBool True)]"

definition undeclared_config :: pydict where
  "undeclared_config =
     [(''task_name'', PStr ''resend.scheduler''), (''queue'', PStr ''email''),
      (''params'', PDict [])]"

definition resend_config :: pydict where
  "resend_config =
     [(''task_name'', PStr ''resend.scheduler''), (''queue'', PStr ''email''),
      (''params'', PDict [(''interval_seconds'', PInt 60)]), (''singleton'', PBool True)]"

definition reports_config :: pydict where
  "reports_config =
     [(''task_name'', PStr ''reports.daily''), (''queue'', PStr ''default''),
      (''params'', PDict []), (''singleton'', PBool True)]"

definition disabled_config :: pydict where
  "disabled_config =
     [(''task_name'', PStr ''obsidian.scheduler''), (''queue'', PStr ''obsidian''),
      (''params'', PDict []), (''singleton'', PBool True), (''enabled'', PBool False)]"

section \<open>Properties\<close>

subsection \<open>Periodic sync loop\<close>

lemma scheduler_loop_failures:
  "truthy (dict_get result ''error'' PNone) \<Longrightarrow>
   scheduler_loop interval max_interval vars (replicate k (Inr result)) =
     (map (\<lambda>j. min (interval * 2 ^ (consecutive_errors vars + j)) max_interval) [1..<Suc k], None)"
proof (induction k arbitrary: vars)
  case 0
  then show ?case by simp
next
  case (Suc k)
  let ?vars' = "\<lparr>iteration = iteration vars + 1, consecutive_errors = consecutive_errors vars + 1\<rparr>"
  have step: "scheduler_iteration interval max_interval vars result =
      (?vars', min (interval * 2 ^ (consecutive_errors vars + 1)) max_interval)"
    using Suc.prems by (simp add: scheduler_iteration_def Let_def)
  have upt1: "[1..<Suc (Suc k)] = 1 # map Suc [1..<Suc k]"
    by (simp add: upt_conv_Cons map_Suc_upt del: upt_Suc)
  have loop: "scheduler_loop interval max_interval ?vars' (replicate k (Inr result)) =
     (map (\<lambda>j. min (interval * 2 ^ (consecutive_errors ?vars' + j)) max_interval) [1..<Suc k], None)"
    by (rule Suc.IH[OF Suc.prems])
  have "scheduler_loop interval max_interval vars (replicate (Suc k) (Inr result)) =
      (min (interval * 2 ^ (consecutive_errors vars + 1)) max_interval
        # map (\<lambda>j. min (interval * 2 ^ (consecutive_errors ?vars' + j)) max_interval) [1..<Suc k], None)"
    by (simp only: replicate_Suc scheduler_loop.simps step loop prod.case)
  also have "\<dots> = (map (\<lambda>j. min (interval * 2 ^ (consecutive_errors vars + j)) max_interval) [1..<Suc (Suc k)], None)"
    by (simp only: upt1 list.map map_map comp_def) simp
  finally show ?case .
qed

text \<open>
  C4, as the code has it. A failing iteration (the sync result has a truthy \<open>error\<close>)
  first increments \<open>consecutive_errors\<close> and then sleeps
  \<open>min(interval * 2^consecutive_errors, max_interval)\<close> with the incremented count, so
  the \<open>k\<close>-th failure in a row from the start sleeps \<open>min(interval * 2^k, max_interval)\<close>.
  A successful iteration resets \<open>consecutive_errors\<close> to 0 and sleeps \<open>interval\<close>. With
  interval 60 and maximum 3600, two failures in a row sleep 120 and then 240 seconds.
\<close>

theorem scheduler_backoff:
  "(truthy (dict_get result ''error'' PNone) \<longrightarrow>
      scheduler_iteration interval max_interval vars result =
        (\<lparr>iteration = iteration vars + 1, consecutive_errors = consecutive_errors vars + 1\<rparr>,
         min (interval * 2 ^ (consecutive_errors vars + 1)) max_interval)
      \<and> fst (resend_scheduler
                \<lparr>interval_seconds = Some interval, max_interval_seconds = Some max_interval\<rparr>
                (replicate k (Inr result)))
          = map (\<lambda>j. min (interval * 2 ^ j) max_interval) [1..<Suc k])
   \<and> (\<not> truthy (dict_get result ''error'' PNone) \<longrightarrow>
      scheduler_iteration interval max_interval vars result =
        (\<lparr>iteration = iteration vars + 1, consecutive_errors = 0\<rparr>, interval))
   \<and> resend_scheduler \<lparr>interval_seconds = Some 60, max_interval_seconds = Some 3600\<rparr>
        [Inr [(''error'', PStr ''timeout'')], Inr [(''error'', PStr ''timeout'')]]
      = ([120, 240], None)"
proof (intro conjI impI)
  assume err: "truthy (dict_get result ''error'' PNone)"
  then show "scheduler_iteration interval max_interval vars result =
        (\<lparr>iteration = iteration vars + 1, consecutive_errors = consecutive_errors vars + 1\<rparr>,
         min (interval * 2 ^ (consecutive_errors vars + 1)) max_interval)"
    by (simp add: scheduler_iteration_def Let_def)
  show "fst (resend_scheduler
                \<lparr>interval_seconds = Some interval, max_interval_seconds = Some max_interval\<rparr>
                (replicate k (Inr result)))
          = map (\<lambda>j. min (interval * 2 ^ j) max_interval) [1..<Suc k]"
    using scheduler_loop_failures[OF err, of interval max_interval
        "\<lparr>iteration = 0, consecutive_errors = 0\<rparr>" k]
    by (simp add: resend_scheduler_def del: upt_Suc)
next
  assume "\<not> truthy (dict_get result ''error'' PNone)"
  then show "scheduler_iteration interval max_interval vars result =
        (\<lparr>iteration = iteration vars + 1, consecutive_errors = 0\<rparr>, interval)"
    by (simp add: scheduler_iteration_def Let_def)
next
  show "resend_scheduler \<lparr>interval_seconds = Some 60, max_interval_seconds = Some 3600\<rparr>
        [Inr [(''error'', PStr ''timeout'')], Inr [(''error'', PStr ''timeout'')]]
      = ([120, 240], None)"
    by (simp add: resend_scheduler_def scheduler_iteration_def dict_get_def Let_def)
qed

text \<open>
  The second failure in a row sleeps 240 seconds and the success after it resets the
  count and sleeps 60.
\<close>

theorem scheduler_backoff_witness:
  "scheduler_iteration 60 3600 \<lparr>iteration = 1, consecutive_errors = 1\<rparr>
       [(''error'', PStr ''timeout'')]
     = (\<lparr>iteration = 2, consecutive_errors = 2\<rparr>, 240)
   \<and> scheduler_iteration 60 3600 \<lparr>iteration = 2, consecutive_errors = 2\<rparr>
       [(''created'', PInt 0)]
     = (\<lparr>iteration = 3, consecutive_errors = 0\<rparr>, 60)"
  using scheduler_backoff[of "[(''error'', PStr ''timeout'')]" 60 3600
      "\<lparr>iteration = 1, consecutive_errors = 1\<rparr>" 0]
    scheduler_backoff[of "[(''created'', PInt 0)]" 60 3600
      "\<lparr>iteration = 2, consecutive_errors = 2\<rparr>" 0]
  by (simp add: dict_get_def)

text \<open>
  C4 as stated fails: on the first failure \<open>consecutive_errors\<close> is 0 when the iteration
  begins, and the sleep is not \<open>min(60 * 2^0, 3600) = 60\<close> but 120.
\<close>

theorem scheduler_backoff_counterexample:
  "snd (scheduler_iteration 60 3600 \<lparr>iteration = 0, consecutive_errors = 0\<rparr>
          [(''error'', PStr ''timeout'')])
     \<noteq> min (60 * 2 ^ consecutive_errors \<lparr>iteration = 0, consecutive_errors = 0\<rparr>) 3600"
  by (simp add: scheduler_iteration_def dict_get_def Let_def)

subsection \<open>Matcher\<close>

lemma check_condition_unknown:
  "k \<notin> set known_condition_types \<Longrightarrow> check_condition py event k v = Inr False"
  by (simp add: known_condition_types_def check_condition_def)

lemma regex_match_invalid:
  "re_compile py [IGNORECASE] p = Inl (ReError m) \<Longrightarrow> regex_match py text (PStr p) = Inr False"
  by (simp add: regex_match_def)

lemma contains_returns:
  "str_or_falsy t \<Longrightarrow> str_or_falsy v \<Longrightarrow> \<exists>b. contains py t v = Inr b"
  by (cases t; cases v) (auto simp add: contains_def str_or_falsy_def)

lemma equals_returns:
  "str_or_falsy t \<Longrightarrow> str_or_falsy v \<Longrightarrow> \<exists>b. equals py t v = Inr b"
  by (cases t; cases v) (auto simp add: equals_def str_or_falsy_def)

lemma regex_match_returns:
  "str_or_falsy t \<Longrightarrow> condition_well_typed py ''subject_matches'' v \<Longrightarrow>
   \<exists>b. regex_match py t v = Inr b"
  by (cases t; cases v)
    (auto simp add: regex_match_def str_or_falsy_def condition_well_typed_def
      text_conditions_def split: sum.splits)

lemma has_attachments_returns:
  "event_well_typed event \<Longrightarrow>
   \<exists>b. has_attachments (dict_get event ''payload'' (PDict [])) = Inr b"
  by (auto simp add: event_well_typed_def has_attachments_def split: pyval.splits)

lemma check_condition_returns:
  assumes ev: "event_well_typed event" and c: "condition_well_typed py k v"
  shows "\<exists>b. check_condition py event k v = Inr b"
proof -
  have f: "str_or_falsy (dict_get event ''email_from'' (PStr []))"
    and t: "str_or_falsy (dict_get event ''email_to'' (PStr []))"
    and s: "str_or_falsy (dict_get event ''email_subject'' (PStr []))"
    and b: "str_or_falsy (dict_get event ''email_body'' (PStr []))"
    using ev by (simp_all add: event_well_typed_def)
  consider (textual) "k \<in> set (map fst text_conditions)"
    | (rx) "k = ''subject_matches''"
    | (att) "k = ''has_attachment''"
    | (other) "k \<notin> set (map fst text_conditions)" "k \<noteq> ''subject_matches''" "k \<noteq> ''has_attachment''"
    by blast
  then show ?thesis
  proof cases
    case textual
    then have v: "str_or_falsy v" using c by (simp add: condition_well_typed_def)
    from textual show ?thesis
      using contains_returns[OF f v, of py] contains_returns[OF t v, of py]
        contains_returns[OF s v, of py] contains_returns[OF b v, of py]
        equals_returns[OF f v, of py] equals_returns[OF t v, of py]
        equals_returns[OF s v, of py]
      by (auto simp add: text_conditions_def check_condition_def)
  next
    case rx
    then show ?thesis
      using regex_match_returns[OF s, of py v] c by (simp add: check_condition_def)
  next
    case att
    then show ?thesis
      using has_attachments_returns[OF ev] by (auto simp add: check_condition_def)
  next
    case other
    then show ?thesis
      by (auto simp add: text_conditions_def check_condition_def)
  qed
qed

lemma all_conditions_returns:
  "event_well_typed event \<Longrightarrow> conditions_well_typed py conds \<Longrightarrow>
   \<exists>b. all_conditions py event conds = Inr b"
proof (induction conds)
  case Nil
  then show ?case by auto
next
  case (Cons kv conds)
  obtain k v where kv: "kv = (k, v)" by (cases kv)
  from Cons.prems kv have c: "condition_well_typed py k v" and rest: "conditions_well_typed py conds"
    by (simp_all add: conditions_well_typed_def)
  from check_condition_returns[OF Cons.prems(1) c] obtain b where "check_condition py event k v = Inr b" ..
  then show ?case using Cons.IH[OF Cons.prems(1) rest] kv by auto
qed

lemma all_conditions_false_entry:
  "event_well_typed event \<Longrightarrow> conditions_well_typed py conds \<Longrightarrow>
   (k, v) \<in> set conds \<Longrightarrow> check_condition py event k v = Inr False \<Longrightarrow>
   all_conditions py event conds = Inr False"
proof (induction conds)
  case Nil
  then show ?case by simp
next
  case (Cons kv conds)
  obtain k' v' where kv: "kv = (k', v')" by (cases kv)
  from Cons.prems kv have c: "condition_well_typed py k' v'" and rest: "conditions_well_typed py conds"
    by (simp_all add: conditions_well_typed_def)
  from check_condition_returns[OF Cons.prems(1) c] obtain b where b: "check_condition py event k' v' = Inr b" ..
  show ?case
  proof (cases b)
    case False
    then show ?thesis using b kv by simp
  next
    case True
    then have "(k, v) \<in> set conds" using Cons.prems(3,4) b kv by auto
    then show ?thesis using Cons.IH[OF Cons.prems(1) rest _ Cons.prems(4)] b True kv by simp
  qed
qed

text \<open>
  C3, as the code has it. A condition entry with an unknown key evaluates to \<open>False\<close>,
  whatever the event and the value are, and a \<open>subject_matches\<close> condition whose pattern
  the engine rejects with \<open>re.error\<close> evaluates to \<open>False\<close>. On a well-typed event and
  well-typed conditions (text fields and the values of the text predicates are strings
  or falsy, the payload is a dictionary, compiling a pattern raises nothing but
  \<open>re.error\<close>) \<open>matches_conditions\<close> returns a boolean and does not raise, and the
  boolean is \<open>False\<close> when an entry has an unknown key or an invalid pattern.
\<close>

theorem matches_conditions_fail_closed:
  "(k \<notin> set known_condition_types \<longrightarrow> check_condition py any_event k v = Inr False)
   \<and> (re_compile py [IGNORECASE] p = Inl (ReError m) \<longrightarrow>
        check_condition py any_event ''subject_matches'' (PStr p) = Inr False)
   \<and> (event_well_typed event \<and> conditions_well_typed py conds \<longrightarrow>
        (\<exists>b. matches_conditions py event (PDict conds) = Inr b)
        \<and> ((\<exists>k' v'. (k', v') \<in> set conds \<and> k' \<notin> set known_condition_types) \<longrightarrow>
             matches_conditions py event (PDict conds) = Inr False)
        \<and> ((\<exists>p' m'. (''subject_matches'', PStr p') \<in> set conds
                \<and> re_compile py [IGNORECASE] p' = Inl (ReError m')) \<longrightarrow>
             matches_conditions py event (PDict conds) = Inr False))"
proof (intro conjI impI)
  assume "k \<notin> set known_condition_types"
  then show "check_condition py any_event k v = Inr False"
    by (rule check_condition_unknown)
next
  assume "re_compile py [IGNORECASE] p = Inl (ReError m)"
  then show "check_condition py any_event ''subject_matches'' (PStr p) = Inr False"
    by (simp add: check_condition_def regex_match_invalid)
next
  assume wt: "event_well_typed event \<and> conditions_well_typed py conds"
  then show "\<exists>b. matches_conditions py event (PDict conds) = Inr b"
    using all_conditions_returns[of event py conds] by (simp add: matches_conditions_def)
next
  assume wt: "event_well_typed event \<and> conditions_well_typed py conds"
    and "\<exists>k' v'. (k', v') \<in> set conds \<and> k' \<notin> set known_condition_types"
  then obtain k' v' where mem: "(k', v') \<in> set conds" and unk: "k' \<notin> set known_condition_types"
    by blast
  have "all_conditions py event conds = Inr False"
    using all_conditions_false_entry[OF _ _ mem check_condition_unknown[OF unk]] wt by blast
  then show "matches_conditions py event (PDict conds) = Inr False"
    by (simp add: matches_conditions_def)
next
  assume wt: "event_well_typed event \<and> conditions_well_typed py conds"
    and "\<exists>p' m'. (''subject_matches'', PStr p') \<in> set conds
                \<and> re_compile py [IGNORECASE] p' = Inl (ReError m')"
  then obtain p' m' where mem: "(''subject_matches'', PStr p') \<in> set conds"
    and bad: "re_compile py [IGNORECASE] p' = Inl (ReError m')"
    by blast
  have "check_condition py event ''subject_matches'' (PStr p') = Inr False"
    using bad by (simp add: check_condition_def regex_match_invalid)
  then have "all_conditions py event conds = Inr False"
    using all_conditions_false_entry[OF _ _ mem] wt by blast
  then show "matches_conditions py event (PDict conds) = Inr False"
    by (simp add: matches_conditions_def)
qed

text \<open>
  On the event of scenario A: an unknown key after a matching condition, and the invalid
  pattern \<open>(\<close>, both give \<open>False\<close>.
\<close>

theorem matches_conditions_fail_closed_witness:
  "matches_conditions sample_pylib (event_dict support_event)
     (PDict [(''to_contains'', PStr ''SUPPORT@''), (''colour'', PStr ''red'')]) = Inr False
   \<and> matches_conditions sample_pylib (event_dict support_event)
     (PDict [(''subject_matches'', PStr ''('')]) = Inr False
   \<and> check_condition sample_pylib [] ''colour'' (PInt 5) = Inr False"
proof -
  have wt: "event_well_typed (event_dict support_event)"
    by (simp add: event_well_typed_def event_dict_def support_event_def dict_get_def
        str_or_falsy_def opt_str_def)
  have c1: "conditions_well_typed sample_pylib
      [(''to_contains'', PStr ''SUPPORT@''), (''colour'', PStr ''red'')]"
    by (simp add: conditions_well_typed_def condition_well_typed_def text_conditions_def
        str_or_falsy_def)
  have c2: "conditions_well_typed sample_pylib [(''subject_matches'', PStr ''('')]"
    by (simp add: conditions_well_typed_def condition_well_typed_def text_conditions_def
        sample_pylib_def sample_regex_def)
  have u: "''colour'' \<notin> set known_condition_types"
    by (simp add: known_condition_types_def)
  have bad: "re_compile sample_pylib [IGNORECASE] ''(''
      = Inl (ReError ''missing ), unterminated subpattern at position 0'')"
    by (simp add: sample_pylib_def sample_regex_def)
  have unknown: "\<exists>k' v'. (k', v') \<in> set [(''to_contains'', PStr ''SUPPORT@''),
        (''colour'', PStr ''red'')] \<and> k' \<notin> set known_condition_types"
    using u by (intro exI[of _ "''colour''"] exI[of _ "PStr ''red''"]) simp
  have invalid: "\<exists>p' m'. (''subject_matches'', PStr p') \<in> set [(''subject_matches'', PStr ''('')]
        \<and> re_compile sample_pylib [IGNORECASE] p' = Inl (ReError m')"
    using bad
    by (intro exI[of _ "''(''"] exI[of _ "''missing ), unterminated subpattern at position 0''"])
      simp
  note inst = matches_conditions_fail_closed[where k = "''colour''" and py = sample_pylib
      and any_event = "[]" and v = "PInt 5" and p = "''(''"
      and m = "''missing ), unterminated subpattern at position 0''"
      and event = "event_dict support_event"]
  have third: "check_condition sample_pylib [] ''colour'' (PInt 5) = Inr False"
    using inst[where conds = "[]", THEN conjunct1] u by (rule mp)
  have first: "matches_conditions sample_pylib (event_dict support_event)
     (PDict [(''to_contains'', PStr ''SUPPORT@''), (''colour'', PStr ''red'')]) = Inr False"
    using inst[where conds = "[(''to_contains'', PStr ''SUPPORT@''), (''colour'', PStr ''red'')]",
        THEN conjunct2, THEN conjunct2, THEN mp, OF conjI[OF wt c1],
        THEN conjunct2, THEN conjunct1] unknown
    by (rule mp)
  have second: "matches_conditions sample_pylib (event_dict support_event)
     (PDict [(''subject_matches'', PStr ''('')]) = Inr False"
    using inst[where conds = "[(''subject_matches'', PStr ''('')]",
        THEN conjunct2, THEN conjunct2, THEN mp, OF conjI[OF wt c2],
        THEN conjunct2, THEN conjunct2] invalid
    by (rule mp)
  show ?thesis using first second third by simp
qed

text \<open>
  C3 as stated fails: \<open>matches_conditions\<close> raises on a conditions map whose
  \<open>from_contains\<close> value is the number 5 (\<open>substring.lower()\<close> on an \<open>int\<close>).
\<close>

theorem matches_conditions_counterexample:
  "matches_conditions sample_pylib (event_dict support_event)
     (PDict [(''from_contains'', PInt 5)])
   = Inl (AttributeError ''int object has no attribute lower'')"
  by (simp add: matches_conditions_def check_condition_def contains_def dict_get_def
      event_dict_def support_event_def opt_str_def no_attribute_def)

lemma contains_same_lower:
  assumes s: "str_lower py s = str_lower py s'" and se: "(s = []) = (s' = [])"
    and v: "str_lower py v = str_lower py v'" and ve: "(v = []) = (v' = [])"
  shows "contains py (PStr s) (PStr v) = contains py (PStr s') (PStr v')"
  by (simp add: contains_def s v se ve)

lemma equals_same_lower:
  assumes s: "str_lower py s = str_lower py s'" and se: "(s = []) = (s' = [])"
    and v: "str_lower py v = str_lower py v'" and ve: "(v = []) = (v' = [])"
  shows "equals py (PStr s) (PStr v) = equals py (PStr s') (PStr v')"
proof (cases "s = [] \<or> v = []")
  case True
  then have "(s = v) = (s' = v')"
    using se ve by auto
  then show ?thesis
    using True se ve by (simp add: equals_def)
next
  case False
  then show ?thesis
    using se ve by (simp add: equals_def s v)
qed

lemma text_condition_cases:
  assumes "(k, field) \<in> set text_conditions"
  shows "(k = ''from_contains'' \<and> field = ''email_from'')
    \<or> (k = ''from_equals'' \<and> field = ''email_from'')
    \<or> (k = ''to_contains'' \<and> field = ''email_to'')
    \<or> (k = ''to_equals'' \<and> field = ''email_to'')
    \<or> (k = ''subject_contains'' \<and> field = ''email_subject'')
    \<or> (k = ''subject_equals'' \<and> field = ''email_subject'')
    \<or> (k = ''body_contains'' \<and> field = ''email_body'')"
  using assms by (simp add: text_conditions_def)

text \<open>
  C8, as the code has it. The seven predicates \<open>from_contains\<close>, \<open>from_equals\<close>,
  \<open>to_contains\<close>, \<open>to_equals\<close>, \<open>subject_contains\<close>, \<open>subject_equals\<close> and
  \<open>body_contains\<close> compare field and value after \<open>str.lower()\<close>: the result is the
  same when the event field and the condition value are replaced by strings that have
  the same \<open>str.lower()\<close> (an empty string by an empty one). \<open>event_type_equals\<close> and
  \<open>source_equals\<close> are exact: on strings they hold when field and value are the same
  string and not otherwise. \<open>subject_matches\<close> is false on an empty subject or pattern
  and on a pattern the engine rejects with \<open>re.error\<close>; otherwise it is the result of
  the engine's search, with \<open>re.IGNORECASE\<close>, of the pattern in the subject, both as
  they are.
\<close>

theorem text_conditions_ignore_case:
  "((k, field) \<in> set text_conditions
      \<and> str_lower py s = str_lower py s' \<and> (s = []) = (s' = [])
      \<and> str_lower py v = str_lower py v' \<and> (v = []) = (v' = []) \<longrightarrow>
      check_condition py ((field, PStr s) # event) k (PStr v)
        = check_condition py ((field, PStr s') # event) k (PStr v'))
   \<and> check_condition py ((''event_type'', PStr s) # event) ''event_type_equals'' (PStr v)
        = Inr (s = v)
   \<and> check_condition py ((''source'', PStr s) # event) ''source_equals'' (PStr v)
        = Inr (s = v)
   \<and> check_condition py ((''email_subject'', PStr s) # event) ''subject_matches'' (PStr p)
        = (if s = [] \<or> p = [] then Inr False
           else (case re_compile py [IGNORECASE] p of
                   Inl e \<Rightarrow> (if is_re_error e then Inr False else Inl e)
                 | Inr search \<Rightarrow> Inr (search s)))"
proof (intro conjI impI)
  assume a: "(k, field) \<in> set text_conditions
      \<and> str_lower py s = str_lower py s' \<and> (s = []) = (s' = [])
      \<and> str_lower py v = str_lower py v' \<and> (v = []) = (v' = [])"
  then have c: "contains py (PStr s) (PStr v) = contains py (PStr s') (PStr v')"
    and e: "equals py (PStr s) (PStr v) = equals py (PStr s') (PStr v')"
    using contains_same_lower[of py s s' v v'] equals_same_lower[of py s s' v v'] by blast+
  from a have "(k, field) \<in> set text_conditions" by simp
  from text_condition_cases[OF this]
  show "check_condition py ((field, PStr s) # event) k (PStr v)
        = check_condition py ((field, PStr s') # event) k (PStr v')"
    by (elim disjE conjE) (simp_all add: check_condition_def dict_get_def c e)
next
  show "check_condition py ((''event_type'', PStr s) # event) ''event_type_equals'' (PStr v)
        = Inr (s = v)"
    by (simp add: check_condition_def dict_get_def)
next
  show "check_condition py ((''source'', PStr s) # event) ''source_equals'' (PStr v)
        = Inr (s = v)"
    by (simp add: check_condition_def dict_get_def)
next
  show "check_condition py ((''email_subject'', PStr s) # event) ''subject_matches'' (PStr p)
        = (if s = [] \<or> p = [] then Inr False
           else (case re_compile py [IGNORECASE] p of
                   Inl e \<Rightarrow> (if is_re_error e then Inr False else Inl e)
                 | Inr search \<Rightarrow> Inr (search s)))"
    by (simp add: check_condition_def dict_get_def regex_match_def split: sum.splits)
qed

text \<open>
  A sender and a value that differ in case from their lower-case forms give the same
  result for \<open>from_equals\<close>, here \<open>True\<close>.
\<close>

theorem text_conditions_ignore_case_witness:
  "check_condition sample_pylib [(''email_from'', PStr ''Alice@X.com'')] ''from_equals''
       (PStr ''ALICE@x.COM'')
     = check_condition sample_pylib [(''email_from'', PStr ''alice@x.com'')] ''from_equals''
         (PStr ''alice@x.com'')
   \<and> check_condition sample_pylib [(''email_from'', PStr ''alice@x.com'')] ''from_equals''
         (PStr ''alice@x.com'') = Inr True"
proof -
  have l1: "str_lower sample_pylib ''Alice@X.com'' = str_lower sample_pylib ''alice@x.com''"
    by (simp add: sample_pylib_def ascii_lower_def ascii_lower_char_def)
  have l2: "str_lower sample_pylib ''ALICE@x.COM'' = str_lower sample_pylib ''alice@x.com''"
    by (simp add: sample_pylib_def ascii_lower_def ascii_lower_char_def)
  have m: "(''from_equals'', ''email_from'') \<in> set text_conditions"
    by (simp add: text_conditions_def)
  have first: "check_condition sample_pylib [(''email_from'', PStr ''Alice@X.com'')] ''from_equals''
       (PStr ''ALICE@x.COM'')
     = check_condition sample_pylib [(''email_from'', PStr ''alice@x.com'')] ''from_equals''
         (PStr ''alice@x.com'')"
    using text_conditions_ignore_case[where k = "''from_equals''" and field = "''email_from''"
        and s = "''Alice@X.com''" and s' = "''alice@x.com''" and v = "''ALICE@x.COM''"
        and v' = "''alice@x.com''" and py = sample_pylib and event = "[]" and p = "''help''"]
      l1 l2 m
    by simp
  have second: "check_condition sample_pylib [(''email_from'', PStr ''alice@x.com'')]
      ''from_equals'' (PStr ''alice@x.com'') = Inr True"
    by (simp add: check_condition_def dict_get_def equals_def)
  show ?thesis using first second by (rule conjI)
qed

text \<open>
  C8 as stated fails. \<open>event_type_equals\<close> and \<open>source_equals\<close> compare with \<open>==\<close>:
  changing the case of the event's type or source changes the result. For
  \<open>subject_matches\<close> the condition value is a pattern, and changing the case of a
  letter in it changes what it means: \<open>\d\<close> finds the digit in the subject \<open>5\<close> and
  \<open>\D\<close> does not.
\<close>

theorem exact_conditions_counterexample:
  "str_lower sample_pylib ''Email.Received'' = str_lower sample_pylib ''email.received''
   \<and> check_condition sample_pylib [(''event_type'', PStr ''Email.Received'')]
        ''event_type_equals'' (PStr ''email.received'')
     \<noteq> check_condition sample_pylib [(''event_type'', PStr ''email.received'')]
        ''event_type_equals'' (PStr ''email.received'')
   \<and> str_lower sample_pylib ''Email'' = str_lower sample_pylib ''email''
   \<and> check_condition sample_pylib [(''source'', PStr ''Email'')]
        ''source_equals'' (PStr ''email'')
     \<noteq> check_condition sample_pylib [(''source'', PStr ''email'')]
        ''source_equals'' (PStr ''email'')
   \<and> str_lower sample_pylib [CHR 0x5C, CHR ''d''] = str_lower sample_pylib [CHR 0x5C, CHR ''D'']
   \<and> check_condition sample_pylib [(''email_subject'', PStr ''5'')]
        ''subject_matches'' (PStr [CHR 0x5C, CHR ''d''])
     \<noteq> check_condition sample_pylib [(''email_subject'', PStr ''5'')]
        ''subject_matches'' (PStr [CHR 0x5C, CHR ''D''])"
proof -
  have lows: "str_lower sample_pylib ''Email.Received'' = str_lower sample_pylib ''email.received''"
    "str_lower sample_pylib ''Email'' = str_lower sample_pylib ''email''"
    "str_lower sample_pylib [CHR 0x5C, CHR ''d''] = str_lower sample_pylib [CHR 0x5C, CHR ''D'']"
    by (simp_all add: sample_pylib_def ascii_lower_def ascii_lower_char_def)
  have exact: "check_condition sample_pylib [(''event_type'', PStr ''Email.Received'')]
        ''event_type_equals'' (PStr ''email.received'')
     \<noteq> check_condition sample_pylib [(''event_type'', PStr ''email.received'')]
        ''event_type_equals'' (PStr ''email.received'')"
    "check_condition sample_pylib [(''source'', PStr ''Email'')]
        ''source_equals'' (PStr ''email'')
     \<noteq> check_condition sample_pylib [(''source'', PStr ''email'')]
        ''source_equals'' (PStr ''email'')"
    by (simp_all add: check_condition_def dict_get_def)
  have digit: "check_condition sample_pylib [(''email_subject'', PStr ''5'')]
        ''subject_matches'' (PStr [CHR 0x5C, CHR ''d'']) = Inr True"
    and nondigit: "check_condition sample_pylib [(''email_subject'', PStr ''5'')]
        ''subject_matches'' (PStr [CHR 0x5C, CHR ''D'']) = Inr False"
    by (simp_all add: check_condition_def dict_get_def regex_match_def sample_pylib_def
        sample_regex_def ascii_digit_def)
  show ?thesis
    using lows exact digit nondigit by simp
qed

subsection \<open>Router\<close>

lemma first_match_cases:
  "(case first_match py event rs of
      Inl e \<Rightarrow>
        \<exists>before r after. rs = before @ r # after
          \<and> (\<forall>b\<in>set before. matches_conditions py event (rule_conditions b) = Inr False)
          \<and> matches_conditions py event (rule_conditions r) = Inl e
    | Inr None \<Rightarrow> \<forall>r\<in>set rs. matches_conditions py event (rule_conditions r) = Inr False
    | Inr (Some res) \<Rightarrow>
        \<exists>before r after. rs = before @ r # after
          \<and> (\<forall>b\<in>set before. matches_conditions py event (rule_conditions b) = Inr False)
          \<and> matches_conditions py event (rule_conditions r) = Inr True
          \<and> res = rule_result r)"
proof (induction rs)
  case Nil
  then show ?case by simp
next
  case (Cons a rs)
  show ?case
  proof (cases "matches_conditions py event (rule_conditions a)")
    case (Inl e)
    then have "first_match py event (a # rs) = Inl e" by simp
    moreover have "\<exists>before r after. a # rs = before @ r # after
          \<and> (\<forall>b\<in>set before. matches_conditions py event (rule_conditions b) = Inr False)
          \<and> matches_conditions py event (rule_conditions r) = Inl e"
      using Inl by (intro exI[of _ "[]"] exI[of _ a] exI[of _ rs]) simp
    ultimately show ?thesis by simp
  next
    case (Inr ok)
    show ?thesis
    proof (cases ok)
      case True
      then have "first_match py event (a # rs) = Inr (Some (rule_result a))" using Inr by simp
      moreover have "\<exists>before r after. a # rs = before @ r # after
          \<and> (\<forall>b\<in>set before. matches_conditions py event (rule_conditions b) = Inr False)
          \<and> matches_conditions py event (rule_conditions r) = Inr True
          \<and> rule_result a = rule_result r"
        using Inr True by (intro exI[of _ "[]"] exI[of _ a] exI[of _ rs]) simp
      ultimately show ?thesis by simp
    next
      case False
      then have eq: "first_match py event (a # rs) = first_match py event rs" using Inr by simp
      have ext: "\<And>P. (\<exists>before r after. rs = before @ r # after
            \<and> (\<forall>b\<in>set before. matches_conditions py event (rule_conditions b) = Inr False)
            \<and> P r)
          \<Longrightarrow> (\<exists>before r after. a # rs = before @ r # after
            \<and> (\<forall>b\<in>set before. matches_conditions py event (rule_conditions b) = Inr False)
            \<and> P r)"
      proof -
        fix P
        assume "\<exists>before r after. rs = before @ r # after
            \<and> (\<forall>b\<in>set before. matches_conditions py event (rule_conditions b) = Inr False)
            \<and> P r"
        then obtain before r after where h: "rs = before @ r # after"
            "\<forall>b\<in>set before. matches_conditions py event (rule_conditions b) = Inr False" "P r"
          by blast
        show "\<exists>before r after. a # rs = before @ r # after
            \<and> (\<forall>b\<in>set before. matches_conditions py event (rule_conditions b) = Inr False)
            \<and> P r"
          using h Inr False by (intro exI[of _ "a # before"] exI[of _ r] exI[of _ after]) simp
      qed
      show ?thesis
      proof (cases "first_match py event rs")
        case (Inl e)
        then show ?thesis
          using Cons.IH eq ext[of "\<lambda>r. matches_conditions py event (rule_conditions r) = Inl e"]
          by simp
      next
        case (Inr found)
        note found = this
        show ?thesis
        proof (cases found)
          case None
          then show ?thesis using Cons.IH eq found \<open>matches_conditions py event (rule_conditions a) = Inr ok\<close> False
            by simp
        next
          case (Some res)
          then show ?thesis
            using Cons.IH eq found
              ext[of "\<lambda>r. matches_conditions py event (rule_conditions r) = Inr True \<and> res = rule_result r"]
            by simp
        qed
      qed
    qed
  qed
qed

lemma precedes_key: "precedes a b \<longleftrightarrow> rule_order_key a \<le> rule_order_key b"
  by (auto simp add: precedes_def rule_order_key_def)

lemma get_enabled_rules_sorted: "sorted_wrt precedes (get_enabled_rules table)"
proof -
  have "sorted (map rule_order_key (get_enabled_rules table))"
    by (simp add: get_enabled_rules_def)
  then have "sorted_wrt (\<lambda>a b. rule_order_key a \<le> rule_order_key b) (get_enabled_rules table)"
    by (simp add: sorted_wrt_map)
  then show ?thesis
    by (simp add: precedes_key[abs_def])
qed

lemma get_enabled_rules_permutation:
  assumes "mset table' = mset table"
    and "inj_on rule_order_key {r \<in> set table. rule_enabled r}"
  shows "get_enabled_rules table' = get_enabled_rules table"
proof -
  have "mset (filter rule_enabled table') = mset (filter rule_enabled table)"
    using assms(1) by (metis mset_filter)
  moreover have "set (filter rule_enabled table') = {r \<in> set table. rule_enabled r}"
    using assms(1) by (metis mset_eq_setD set_filter)
  ultimately show ?thesis
    unfolding get_enabled_rules_def
    using assms(2) by (intro sort_key_eq_sort_key) simp_all
qed

text \<open>
  C1, as the code has it. The rules \<open>route_event\<close> walks are exactly the enabled rules,
  in the order (priority descending, created_at ascending). It stops at the first rule
  whose conditions do not evaluate to \<open>False\<close>: if they all hold it returns that rule's
  rule_id, name, action and action_config (a falsy action_config as \<open>{}\<close>); if
  evaluating them raises, the exception leaves \<open>route_event\<close>; and it returns none when
  the conditions of every enabled rule evaluate to \<open>False\<close>. So when no enabled rule's
  conditions raise on the event, it returns the first rule in order whose conditions
  hold, or none. The result depends on the rule set only, not on the order of the rows
  in the table, when no two enabled rules agree on both priority and created_at.
\<close>

theorem route_event_first_match:
  "mset (get_enabled_rules table) = mset (filter rule_enabled table)
   \<and> sorted_wrt precedes (get_enabled_rules table)
   \<and> (case route_event py table event of
         Inl e \<Rightarrow>
           \<exists>before r after. get_enabled_rules table = before @ r # after
             \<and> (\<forall>b\<in>set before. matches_conditions py event (rule_conditions b) = Inr False)
             \<and> matches_conditions py event (rule_conditions r) = Inl e
       | Inr None \<Rightarrow>
           \<forall>r\<in>set table. rule_enabled r \<longrightarrow>
             matches_conditions py event (rule_conditions r) = Inr False
       | Inr (Some res) \<Rightarrow>
           \<exists>before r after. get_enabled_rules table = before @ r # after
             \<and> (\<forall>b\<in>set before. matches_conditions py event (rule_conditions b) = Inr False)
             \<and> matches_conditions py event (rule_conditions r) = Inr True
             \<and> res = rule_result r)
   \<and> ((\<forall>r\<in>set table. rule_enabled r \<longrightarrow>
          (\<exists>ok. matches_conditions py event (rule_conditions r) = Inr ok)) \<longrightarrow>
        (\<exists>res. route_event py table event = Inr res))
   \<and> (mset table' = mset table \<and> inj_on rule_order_key {r \<in> set table. rule_enabled r} \<longrightarrow>
        route_event py table' event = route_event py table event)"
proof (intro conjI)
  show "mset (get_enabled_rules table) = mset (filter rule_enabled table)"
    by (simp add: get_enabled_rules_def)
  show "sorted_wrt precedes (get_enabled_rules table)"
    by (rule get_enabled_rules_sorted)
  have members: "set (get_enabled_rules table) = {r \<in> set table. rule_enabled r}"
    by (simp add: get_enabled_rules_def)
  show "case route_event py table event of
         Inl e \<Rightarrow>
           \<exists>before r after. get_enabled_rules table = before @ r # after
             \<and> (\<forall>b\<in>set before. matches_conditions py event (rule_conditions b) = Inr False)
             \<and> matches_conditions py event (rule_conditions r) = Inl e
       | Inr None \<Rightarrow>
           \<forall>r\<in>set table. rule_enabled r \<longrightarrow>
             matches_conditions py event (rule_conditions r) = Inr False
       | Inr (Some res) \<Rightarrow>
           \<exists>before r after. get_enabled_rules table = before @ r # after
             \<and> (\<forall>b\<in>set before. matches_conditions py event (rule_conditions b) = Inr False)
             \<and> matches_conditions py event (rule_conditions r) = Inr True
             \<and> res = rule_result r"
    using first_match_cases[where py = py and event = event and rs = "get_enabled_rules table"] members
    unfolding route_event_def
    by (auto split: sum.splits option.splits)
  show "(\<forall>r\<in>set table. rule_enabled r \<longrightarrow>
          (\<exists>ok. matches_conditions py event (rule_conditions r) = Inr ok)) \<longrightarrow>
        (\<exists>res. route_event py table event = Inr res)"
  proof
    assume total: "\<forall>r\<in>set table. rule_enabled r \<longrightarrow>
          (\<exists>ok. matches_conditions py event (rule_conditions r) = Inr ok)"
    show "\<exists>res. route_event py table event = Inr res"
    proof (cases "first_match py event (get_enabled_rules table)")
      case (Inl e)
      then have "\<exists>before r after. get_enabled_rules table = before @ r # after
          \<and> (\<forall>b\<in>set before. matches_conditions py event (rule_conditions b) = Inr False)
          \<and> matches_conditions py event (rule_conditions r) = Inl e"
        using first_match_cases[where py = py and event = event and rs = "get_enabled_rules table"]
        by simp
      then obtain before r after where split: "get_enabled_rules table = before @ r # after"
        and raised: "matches_conditions py event (rule_conditions r) = Inl e"
        by blast
      have "r \<in> set (get_enabled_rules table)"
        by (simp add: split)
      then have "r \<in> set table" "rule_enabled r"
        using members by auto
      then show ?thesis using total raised by auto
    next
      case (Inr res)
      then show ?thesis by (simp add: route_event_def)
    qed
  qed
  show "mset table' = mset table \<and> inj_on rule_order_key {r \<in> set table. rule_enabled r} \<longrightarrow>
        route_event py table' event = route_event py table event"
    using get_enabled_rules_permutation[of table' table] by (simp add: route_event_def)
qed

lemma example_rule_keys:
  "inj_on rule_order_key {r \<in> set [fallback_rule, support_rule]. rule_enabled r}"
proof -
  have "rule_order_key fallback_rule \<noteq> rule_order_key support_rule"
    by (simp add: rule_order_key_def fallback_rule_def support_rule_def)
  then show ?thesis
    by (auto simp add: inj_on_def)
qed

text \<open>
  Scenario C: two matching rules of priorities 5 and 10; the priority-10 rule is selected
  whichever way round they are stored.
\<close>

theorem route_event_first_match_witness:
  "route_event sample_pylib [support_rule, fallback_rule] (event_dict support_event)
     = Inr (Some \<lparr>rr_rule_id = ''r-support'', rr_rule_name = ''support'', rr_action = ''tag'',
                  rr_action_config = PDict [(''tags'', PList [PStr ''support''])]\<rparr>)"
proof -
  have ordered: "get_enabled_rules [fallback_rule, support_rule] = [support_rule, fallback_rule]"
    by (simp add: get_enabled_rules_def fallback_rule_def support_rule_def rule_order_key_def
        sort_key_def)
  have hit: "matches_conditions sample_pylib (event_dict support_event)
      (rule_conditions support_rule) = Inr True"
    by (simp add: matches_conditions_def check_condition_def contains_def dict_get_def
        event_dict_def support_event_def support_rule_def opt_str_def sample_pylib_def
        ascii_lower_def ascii_lower_char_def)
  have "route_event sample_pylib [fallback_rule, support_rule] (event_dict support_event)
      = Inr (Some (rule_result support_rule))"
    using ordered hit by (simp add: route_event_def)
  moreover have "mset [support_rule, fallback_rule] = mset [fallback_rule, support_rule]"
    by simp
  ultimately have "route_event sample_pylib [support_rule, fallback_rule] (event_dict support_event)
      = Inr (Some (rule_result support_rule))"
    using route_event_first_match[where table = "[fallback_rule, support_rule]"
        and py = sample_pylib and event = "event_dict support_event"
        and table' = "[support_rule, fallback_rule]"] example_rule_keys
    by simp
  then show ?thesis
    by (simp add: rule_result_def support_rule_def)
qed

text \<open>
  C1 as stated fails: the conditions of \<open>support_rule\<close> hold on the event, but the
  rule before it in order has a number as its \<open>from_contains\<close> value, and \<open>route_event\<close>
  raises instead of returning a rule.
\<close>

theorem route_event_counterexample:
  "route_event sample_pylib [support_rule, number_rule] (event_dict support_event)
     = Inl (AttributeError ''int object has no attribute lower'')"
proof -
  have ordered: "get_enabled_rules [support_rule, number_rule] = [number_rule, support_rule]"
    by (simp add: get_enabled_rules_def number_rule_def support_rule_def rule_order_key_def
        sort_key_def)
  have "matches_conditions sample_pylib (event_dict support_event)
      (rule_conditions number_rule) = Inl (AttributeError ''int object has no attribute lower'')"
    by (simp add: matches_conditions_def check_condition_def contains_def dict_get_def
        event_dict_def support_event_def number_rule_def opt_str_def no_attribute_def)
  then show ?thesis
    using ordered by (simp add: route_event_def)
qed

text \<open>
  C2. For a stored event whose status is not \<open>pending\<close>, \<open>process_event\<close> returns the
  error result \<open>Event already processed: <status>\<close> and the store (events, rules and
  action log) is exactly what it was.
\<close>

theorem process_event_not_pending:
  assumes "find (\<lambda>r. ev_id r = event_id) (events st) = Some row"
    and "ev_status row \<noteq> ''pending''"
  shows "process_event en new_id started utcnow st event_id =
           (Inr [(''error'', PStr (''Event already processed: '' @ ev_status row))], st)"
  using assms by (simp add: process_event_def Let_def)

theorem process_event_not_pending_witness:
  "process_event sample_env ''a-1'' 7 (\<lambda>n. 8)
     \<lparr>events = [support_event\<lparr>ev_status := ''processed''\<rparr>], rules = [support_rule], actions = []\<rparr>
     ''e-1''
   = (Inr [(''error'', PStr ''Event already processed: processed'')],
      \<lparr>events = [support_event\<lparr>ev_status := ''processed''\<rparr>], rules = [support_rule],
       actions = []\<rparr>)"
  using process_event_not_pending[of "''e-1''"
      "\<lparr>events = [support_event\<lparr>ev_status := ''processed''\<rparr>], rules = [support_rule], actions = []\<rparr>"
      "support_event\<lparr>ev_status := ''processed''\<rparr>" sample_env "''a-1''" 7 "\<lambda>n. 8"]
  by (simp add: support_event_def)

subsection \<open>Action executor\<close>

lemma action_tag_frame:
  "action_tag st event_id config = (outcome, st2) \<Longrightarrow>
   actions st2 = actions st \<and> rules st2 = rules st"
  by (auto simp add: action_tag_def update_event_def split: sum.splits if_splits)

lemma dispatch_frame:
  "dispatch en st event_id action config event = (outcome, st2) \<Longrightarrow>
   actions st2 = actions st \<and> rules st2 = rules st"
  using action_tag_frame[of st event_id config outcome st2]
  by (auto simp add: dispatch_def split: if_splits)

lemma update_absent_row:
  "new_id \<notin> act_id ` set rows \<Longrightarrow>
   map (\<lambda>r. if act_id r = new_id then f r else r) rows = rows"
  by (induction rows) auto

text \<open>
  C5. The id of the new ActionLog row is the table's generated primary key, so no stored
  row has it. A call to \<open>execute_action\<close> then appends exactly one row to the log, with
  status \<open>running\<close>, before the handler is dispatched; the handler leaves the log alone;
  and at the end that row, and no other, has been updated: to \<open>completed\<close> when the
  result's \<open>success\<close> is truthy and to \<open>failed\<close> otherwise, with the result as its
  output. When the handler raises, the exception does not leave \<open>execute_action\<close>: the
  returned result is \<open>{success: False, error: str(e)}\<close>, the row is \<open>failed\<close> and its
  error column holds \<open>str(e)\<close>.
\<close>

theorem execute_action_log:
  assumes fresh: "new_id \<notin> act_id ` set (actions st)"
  shows
    "(let running_row =
            \<lparr>act_id = new_id, act_event_id = event_id, act_rule_id = rid,
             act_action = action, act_input = action_config, act_output = None,
             act_status = ''running'', act_error = None,
             act_started_at = started, act_completed_at = None\<rparr>;
          st1 = log_action_start new_id started st event_id rid action action_config;
          (outcome, st2) = dispatch en st1 event_id action action_config event;
          (result, st') =
            execute_action en new_id started utcnow st event_id rid action action_config event
      in actions st1 = actions st @ [running_row]
         \<and> actions st2 = actions st1
         \<and> result =
             (case outcome of
                Inr handler_result \<Rightarrow> handler_result
              | Inl e \<Rightarrow> [(''success'', PBool False), (''error'', PStr (exc_str e))])
         \<and> actions st' = actions st @
             [running_row
                \<lparr>act_output := Some (PDict result),
                 act_status :=
                   (if truthy (dict_get result ''success'' PNone)
                    then ''completed'' else ''failed''),
                 act_error := (case outcome of Inr handler_result \<Rightarrow> None
                               | Inl e \<Rightarrow> Some (exc_str e)),
                 act_completed_at := Some utcnow\<rparr>]
         \<and> (case outcome of
               Inr handler_result \<Rightarrow> True
             | Inl e \<Rightarrow> act_status (last (actions st')) = ''failed'')
         \<and> events st' = events st2 \<and> rules st' = rules st)"
proof -
  define st1 where "st1 = log_action_start new_id started st event_id rid action action_config"
  obtain outcome st2 where d: "dispatch en st1 event_id action action_config event = (outcome, st2)"
    by (cases "dispatch en st1 event_id action action_config event")
  have a1: "actions st1 = actions st @
      [\<lparr>act_id = new_id, act_event_id = event_id, act_rule_id = rid,
             act_action = action, act_input = action_config, act_output = None,
             act_status = ''running'', act_error = None,
             act_started_at = started, act_completed_at = None\<rparr>]"
    and r1: "rules st1 = rules st"
    by (simp_all add: st1_def log_action_start_def)
  have fr: "actions st2 = actions st1" "rules st2 = rules st1"
    using dispatch_frame[OF d] by simp_all
  show ?thesis
  proof (cases outcome)
    case (Inl e)
    then show ?thesis
      using d a1 r1 fr fresh
      unfolding Let_def execute_action_def st1_def[symmetric]
      by (simp add: log_action_complete_def update_action_def update_absent_row dict_get_def)
  next
    case (Inr handler_result)
    then show ?thesis
      using d a1 r1 fr fresh
      unfolding Let_def execute_action_def st1_def[symmetric]
      by (simp add: log_action_complete_def update_action_def update_absent_row)
  qed
qed

text \<open>
  A \<open>create_note\<close> action whose Notes collaborator raises: one row, \<open>failed\<close>, with the
  error text.
\<close>

theorem execute_action_log_witness:
  "actions (snd (execute_action sample_env ''a-1'' 7 9
       \<lparr>events = [support_event], rules = [support_rule], actions = []\<rparr>
       ''e-1'' ''r-support'' ''create_note'' (PDict []) (event_dict support_event)))
   = [\<lparr>act_id = ''a-1'', act_event_id = ''e-1'', act_rule_id = ''r-support'',
       act_action = ''create_note'', act_input = PDict [],
       act_output = Some (PDict [(''success'', PBool False),
                                 (''error'', PStr ''vault not configured'')]),
       act_status = ''failed'', act_error = Some ''vault not configured'',
       act_started_at = 7, act_completed_at = Some 9\<rparr>]"
proof -
  let ?st = "\<lparr>events = [support_event], rules = [support_rule], actions = []\<rparr>"
  have raised: "action_create_note sample_env (event_dict support_event) (PDict [])
      = Inl (OtherError ''vault not configured'')"
    by (simp add: action_create_note_def and_then_def py_get_def dict_get_def note_title_def
        format_event_as_note_def event_dict_def support_event_def opt_str_def opt_time_def
        sample_env_def)
  have d: "dispatch sample_env
        (log_action_start ''a-1'' 7 ?st ''e-1'' ''r-support'' ''create_note'' (PDict []))
        ''e-1'' ''create_note'' (PDict []) (event_dict support_event)
      = (Inl (OtherError ''vault not configured''),
         log_action_start ''a-1'' 7 ?st ''e-1'' ''r-support'' ''create_note'' (PDict []))"
    by (simp add: dispatch_def raised)
  have fresh: "''a-1'' \<notin> act_id ` set (actions ?st)"
    by simp
  show ?thesis
    using execute_action_log[OF fresh, where en = sample_env and started = 7 and utcnow = 9
        and event_id = "''e-1''" and rid = "''r-support''" and action = "''create_note''"
        and action_config = "PDict []" and event = "event_dict support_event"]
    by (simp add: Let_def d split_def dict_get_def)
qed

subsection \<open>Router: processing an event\<close>

lemma find_updated:
  assumes "\<And>r. ev_id (f r) = ev_id r"
  shows "find (\<lambda>r. ev_id r = i) (map (\<lambda>r. if ev_id r = i then f r else r) rows)
         = map_option f (find (\<lambda>r. ev_id r = i) rows)"
  using assms by (induction rows) auto

lemma map_id_rows: "map (\<lambda>r. if ev_id r = i then id r else r) rows = rows"
  by (induction rows) auto

lemma find_update_event:
  assumes "\<And>r. ev_id (f r) = ev_id r"
  shows "find (\<lambda>r. ev_id r = i) (events (update_event i f st))
         = map_option f (find (\<lambda>r. ev_id r = i) (events st))"
  using find_updated[of f i "events st"] assms by (simp add: update_event_def)

lemma action_tag_events:
  "action_tag st i config = (outcome, st2) \<Longrightarrow>
   \<exists>g. (\<forall>r. ev_id (g r) = ev_id r \<and> ev_status (g r) = ev_status r
          \<and> ev_matched_rule_id (g r) = ev_matched_rule_id r)
     \<and> events st2 = map (\<lambda>r. if ev_id r = i then g r else r) (events st)"
proof -
  assume a: "action_tag st i config = (outcome, st2)"
  show ?thesis
  proof (cases "st2 = st")
    case True
    have "events st = map (\<lambda>r. if ev_id r = i then id r else r) (events st)"
      by (simp only: map_id_rows)
    then show ?thesis using True by (intro exI[of _ id]) simp
  next
    case False
    then obtain tags where
      "st2 = update_event i
         (\<lambda>r. r\<lparr>ev_route_result := Some (jsonb_concat_object (ev_route_result r) [(''tags'', tags)])\<rparr>) st"
      using a by (auto simp add: action_tag_def split: sum.splits if_splits)
    then show ?thesis
      by (intro exI[of _ "\<lambda>r. r\<lparr>ev_route_result := Some (jsonb_concat_object (ev_route_result r) [(''tags'', tags)])\<rparr>"])
        (simp add: update_event_def)
  qed
qed

lemma dispatch_events:
  "dispatch en st i action config event = (outcome, st2) \<Longrightarrow>
   \<exists>g. (\<forall>r. ev_id (g r) = ev_id r \<and> ev_status (g r) = ev_status r
          \<and> ev_matched_rule_id (g r) = ev_matched_rule_id r)
     \<and> events st2 = map (\<lambda>r. if ev_id r = i then g r else r) (events st)"
proof -
  assume a: "dispatch en st i action config event = (outcome, st2)"
  show ?thesis
  proof (cases "action = ''tag''")
    case True
    then show ?thesis using a action_tag_events[of st i config outcome st2]
      by (simp add: dispatch_def)
  next
    case False
    then have "st2 = st" using a by (auto simp add: dispatch_def split: if_splits)
    moreover have "events st = map (\<lambda>r. if ev_id r = i then id r else r) (events st)"
      by (simp only: map_id_rows)
    ultimately show ?thesis by (intro exI[of _ id]) simp
  qed
qed

lemma execute_action_events:
  "execute_action en new_id started utcnow st i rid action config event = (result, st') \<Longrightarrow>
   \<exists>g. (\<forall>r. ev_id (g r) = ev_id r \<and> ev_status (g r) = ev_status r
          \<and> ev_matched_rule_id (g r) = ev_matched_rule_id r)
     \<and> events st' = map (\<lambda>r. if ev_id r = i then g r else r) (events st)"
proof -
  assume a: "execute_action en new_id started utcnow st i rid action config event = (result, st')"
  define st1 where "st1 = log_action_start new_id started st i rid action config"
  obtain outcome st2 where d: "dispatch en st1 i action config event = (outcome, st2)"
    by (cases "dispatch en st1 i action config event")
  have e1: "events st1 = events st" by (simp add: st1_def log_action_start_def)
  have "events st' = events st2"
    using a d unfolding execute_action_def st1_def[symmetric] Let_def
    by (auto simp add: log_action_complete_def update_action_def split: sum.splits)
  then show ?thesis using dispatch_events[OF d] e1 by simp
qed

text \<open>
  C7, as the code has it. For a stored event whose status is \<open>pending\<close>: when
  evaluating a rule's conditions raises, the exception leaves \<open>process_event\<close> and the
  store, the event's \<open>pending\<close> status included, is unchanged. When routing finds no
  rule, \<open>process_event\<close> returns \<open>{status: "unmatched", event_id}\<close>, the event's status
  is \<open>unmatched\<close> and \<open>routed_at\<close> is stamped, and neither the rules nor the action log
  change. When a rule matched, its action is executed once, by \<open>execute_action\<close> with
  the rule's id, action and action_config, on the store in which the event has the rule
  recorded and the rule's match count is incremented; the returned \<open>action_result\<close> is
  the result of that execution, the returned status and the event's final status are
  \<open>processed\<close> if that result's \<open>success\<close> is truthy and \<open>failed\<close> otherwise, and the
  event keeps the matched rule's id.
\<close>

theorem process_event_terminal:
  assumes found: "find (\<lambda>r. ev_id r = event_id) (events st) = Some row"
    and pending: "ev_status row = ''pending''"
  shows
    "case route_event (python en) (rules st) (event_dict row) of
       Inl e \<Rightarrow> process_event en new_id started utcnow st event_id = (Inl e, st)
     | Inr None \<Rightarrow>
         (let st' = update_event event_id
                      (\<lambda>r. r\<lparr>ev_status := ''unmatched'', ev_routed_at := Some (utcnow 0),
                              ev_updated_at := utcnow 1\<rparr>) st
          in process_event en new_id started utcnow st event_id =
               (Inr [(''status'', PStr ''unmatched''), (''event_id'', PStr event_id)], st')
             \<and> (\<exists>row'. find (\<lambda>r. ev_id r = event_id) (events st') = Some row'
                  \<and> ev_status row' = ''unmatched''
                  \<and> ev_routed_at row' = Some (utcnow 0)
                  \<and> ev_matched_rule_id row' = ev_matched_rule_id row)
             \<and> rules st' = rules st \<and> actions st' = actions st)
     | Inr (Some rr) \<Rightarrow>
         (let st1 = update_event event_id
                      (\<lambda>r. r\<lparr>ev_matched_rule_id := Some (rr_rule_id rr),
                              ev_route_result := Some (route_result_json rr),
                              ev_routed_at := Some (utcnow 0),
                              ev_updated_at := utcnow 1\<rparr>) st;
              st2 = update_rule (rr_rule_id rr)
                      (\<lambda>r. r\<lparr>rule_match_count := rule_match_count r + 1,
                              rule_last_matched_at := Some (utcnow 2)\<rparr>) st1;
              executed = execute_action en new_id started (utcnow 3) st2 event_id
                           (rr_rule_id rr) (rr_action rr) (rr_action_config rr) (event_dict row);
              action_result = fst executed;
              new_status = (if truthy (dict_get action_result ''success'' PNone)
                            then ''processed'' else ''failed'');
              st' = update_event event_id
                      (\<lambda>r. r\<lparr>ev_status := new_status, ev_updated_at := utcnow 4\<rparr>)
                      (snd executed)
          in process_event en new_id started utcnow st event_id =
               (Inr [(''status'', PStr new_status),
                     (''event_id'', PStr event_id),
                     (''rule_id'', PStr (rr_rule_id rr)),
                     (''action'', PStr (rr_action rr)),
                     (''action_result'', PDict action_result)], st')
             \<and> (\<exists>row'. find (\<lambda>r. ev_id r = event_id) (events st') = Some row'
                  \<and> ev_status row' = new_status
                  \<and> ev_matched_rule_id row' = Some (rr_rule_id rr)))"
proof (cases "route_event (python en) (rules st) (event_dict row)")
  case (Inl e)
  then show ?thesis
    using found pending by (simp add: process_event_def Let_def)
next
  case (Inr routed)
  show ?thesis
  proof (cases routed)
    case None
    let ?f = "\<lambda>r. r\<lparr>ev_status := ''unmatched'', ev_routed_at := Some (utcnow 0),
                        ev_updated_at := utcnow 1\<rparr>"
    have p: "process_event en new_id started utcnow st event_id =
        (Inr [(''status'', PStr ''unmatched''), (''event_id'', PStr event_id)],
         update_event event_id ?f st)"
      using found pending Inr None by (simp add: process_event_def Let_def)
    have f: "find (\<lambda>r. ev_id r = event_id) (events (update_event event_id ?f st)) = Some (?f row)"
      using find_update_event[of ?f event_id st] found by simp
    have frame: "rules (update_event event_id ?f st) = rules st"
      "actions (update_event event_id ?f st) = actions st"
      by (simp_all add: update_event_def)
    show ?thesis
      using Inr None p f frame
      by (simp add: Let_def del: find.simps)
  next
    case (Some rr)
    let ?f1 = "\<lambda>r. r\<lparr>ev_matched_rule_id := Some (rr_rule_id rr),
                         ev_route_result := Some (route_result_json rr),
                         ev_routed_at := Some (utcnow 0),
                         ev_updated_at := utcnow 1\<rparr>"
    let ?st1 = "update_event event_id ?f1 st"
    let ?st2 = "update_rule (rr_rule_id rr)
        (\<lambda>r. r\<lparr>rule_match_count := rule_match_count r + 1,
                rule_last_matched_at := Some (utcnow 2)\<rparr>) ?st1"
    obtain action_result st3 where x:
      "execute_action en new_id started (utcnow 3) ?st2 event_id (rr_rule_id rr) (rr_action rr)
         (rr_action_config rr) (event_dict row) = (action_result, st3)"
      by (cases "execute_action en new_id started (utcnow 3) ?st2 event_id (rr_rule_id rr)
         (rr_action rr) (rr_action_config rr) (event_dict row)")
    define new_status where "new_status =
      (if truthy (dict_get action_result ''success'' PNone) then ''processed'' else ''failed'')"
    let ?f4 = "\<lambda>r. r\<lparr>ev_status := new_status, ev_updated_at := utcnow 4\<rparr>"
    have p: "process_event en new_id started utcnow st event_id =
        (Inr [(''status'', PStr new_status),
              (''event_id'', PStr event_id),
              (''rule_id'', PStr (rr_rule_id rr)),
              (''action'', PStr (rr_action rr)),
              (''action_result'', PDict action_result)],
         update_event event_id ?f4 st3)"
      using found pending Inr Some x
      by (simp add: process_event_def Let_def new_status_def)
    have f1: "find (\<lambda>r. ev_id r = event_id) (events ?st2) = Some (?f1 row)"
      using find_update_event[of ?f1 event_id st] found by (simp add: update_rule_def)
    obtain g where g: "\<forall>r. ev_id (g r) = ev_id r \<and> ev_status (g r) = ev_status r
          \<and> ev_matched_rule_id (g r) = ev_matched_rule_id r"
      and e3: "events st3 = map (\<lambda>r. if ev_id r = event_id then g r else r) (events ?st2)"
      using execute_action_events[OF x] by blast
    have f3: "find (\<lambda>r. ev_id r = event_id) (events st3) = Some (g (?f1 row))"
      using find_updated[of g event_id "events ?st2"] g f1 e3 by simp
    have f4: "find (\<lambda>r. ev_id r = event_id) (events (update_event event_id ?f4 st3))
        = Some (?f4 (g (?f1 row)))"
      using find_update_event[of ?f4 event_id st3] f3 by simp
    have "ev_status (?f4 (g (?f1 row))) = new_status"
      "ev_matched_rule_id (?f4 (g (?f1 row))) = Some (rr_rule_id rr)"
      using g by simp_all
    then have row': "\<exists>row'. find (\<lambda>r. ev_id r = event_id) (events (update_event event_id ?f4 st3))
          = Some row'
        \<and> ev_status row' = new_status \<and> ev_matched_rule_id row' = Some (rr_rule_id rr)"
      using f4 by (simp del: find.simps)
    show ?thesis
      unfolding Inr Some
      unfolding sum.case option.case Let_def
      unfolding x fst_conv snd_conv new_status_def[symmetric]
      using p row' by (simp del: find.simps)
  qed
qed

lemma scenario_a_route:
  "route_event sample_pylib [support_rule] (event_dict support_event)
     = Inr (Some (rule_result support_rule))"
proof -
  have "matches_conditions sample_pylib (event_dict support_event)
      (rule_conditions support_rule) = Inr True"
    by (simp add: matches_conditions_def check_condition_def contains_def dict_get_def
        event_dict_def support_event_def support_rule_def opt_str_def sample_pylib_def
        ascii_lower_def ascii_lower_char_def)
  moreover have "get_enabled_rules [support_rule] = [support_rule]"
    by (simp add: get_enabled_rules_def support_rule_def sort_key_def)
  ultimately show ?thesis
    by (simp add: route_event_def)
qed

text \<open>
  Scenario A: the event ends \<open>processed\<close> with the tags of the rule added.
\<close>

theorem process_event_terminal_witness:
  "\<exists>st' row'.
     process_event sample_env ''a-1'' 7 (\<lambda>n. 8)
       \<lparr>events = [support_event], rules = [support_rule], actions = []\<rparr> ''e-1''
     = (Inr [(''status'', PStr ''processed''),
             (''event_id'', PStr ''e-1''),
             (''rule_id'', PStr ''r-support''),
             (''action'', PStr ''tag''),
             (''action_result'',
              PDict [(''success'', PBool True), (''tags_added'', PList [PStr ''support''])])],
        st')
     \<and> find (\<lambda>r. ev_id r = ''e-1'') (events st') = Some row'
     \<and> ev_status row' = ''processed''
     \<and> ev_matched_rule_id row' = Some ''r-support''"
proof -
  let ?st = "\<lparr>events = [support_event], rules = [support_rule], actions = []\<rparr>"
  have found: "find (\<lambda>r. ev_id r = ''e-1'') (events ?st) = Some support_event"
    by (simp add: support_event_def)
  have pending: "ev_status support_event = ''pending''"
    by (simp add: support_event_def)
  have routed: "route_event (python sample_env) (rules ?st) (event_dict support_event)
      = Inr (Some (rule_result support_rule))"
    using scenario_a_route by (simp add: sample_env_def)
  have rr: "rr_rule_id (rule_result support_rule) = ''r-support''"
    "rr_action (rule_result support_rule) = ''tag''"
    "rr_action_config (rule_result support_rule) = PDict [(''tags'', PList [PStr ''support''])]"
    by (simp_all add: rule_result_def support_rule_def)
  have tagged: "fst (execute_action sample_env ''a-1'' 7 8 st2 ''e-1'' ''r-support'' ''tag''
         (PDict [(''tags'', PList [PStr ''support''])]) (event_dict support_event))
      = [(''success'', PBool True), (''tags_added'', PList [PStr ''support''])]" for st2
    by (simp add: execute_action_def Let_def dispatch_def action_tag_def py_get_def dict_get_def)
  have ok: "truthy (dict_get [(''success'', PBool True), (''tags_added'', PList [PStr ''support''])]
      ''success'' PNone)"
    by (simp add: dict_get_def)
  from process_event_terminal[OF found pending, of sample_env "''a-1''" 7 "\<lambda>n. 8"]
  show ?thesis
    unfolding routed
    unfolding sum.case option.case Let_def
    unfolding rr
    unfolding tagged
    using ok by (simp del: find.simps)
qed

text \<open>
  C7 as stated fails: with a rule whose \<open>from_contains\<close> value is a number ordered first,
  \<open>process_event\<close> on a pending event raises and the event stays \<open>pending\<close>.
\<close>

theorem process_event_terminal_counterexample:
  "ev_status support_event = ''pending''
   \<and> process_event sample_env ''a-1'' 7 (\<lambda>n. 8)
       \<lparr>events = [support_event], rules = [support_rule, number_rule], actions = []\<rparr> ''e-1''
     = (Inl (AttributeError ''int object has no attribute lower''),
        \<lparr>events = [support_event], rules = [support_rule, number_rule], actions = []\<rparr>)"
proof -
  have ordered: "get_enabled_rules [support_rule, number_rule] = [number_rule, support_rule]"
    by (simp add: get_enabled_rules_def number_rule_def support_rule_def rule_order_key_def
        sort_key_def)
  have "matches_conditions sample_pylib (event_dict support_event)
      (rule_conditions number_rule) = Inl (AttributeError ''int object has no attribute lower'')"
    by (simp add: matches_conditions_def check_condition_def contains_def dict_get_def
        event_dict_def support_event_def number_rule_def opt_str_def no_attribute_def)
  then have "route_event sample_pylib [support_rule, number_rule] (event_dict support_event)
      = Inl (AttributeError ''int object has no attribute lower'')"
    using ordered by (simp add: route_event_def)
  moreover have "find (\<lambda>r. ev_id r = ''e-1'') [support_event] = Some support_event"
    by (simp add: support_event_def)
  moreover have "ev_status support_event = ''pending''"
    by (simp add: support_event_def)
  ultimately show ?thesis
    by (simp add: process_event_def Let_def sample_env_def del: find.simps)
qed

subsection \<open>Router: ingestion\<close>

lemma filter_updated:
  assumes "\<And>r. P (f r) = P r"
  shows "filter P (map (\<lambda>r. if P r then f r else r) rows) = map f (filter P rows)"
  using assms by (induction rows) auto

lemma find_filter_none: "find P rows = None \<longleftrightarrow> filter P rows = []"
  by (induction rows) auto

lemma conflicts_key:
  "conflicts a = (\<lambda>r. ev_source r = arg_source a \<and> ev_source_id r = arg_source_id a)"
  by (simp add: conflicts_def fun_eq_iff)

lemma create_event_rows:
  "filter (conflicts a) (events (snd (create_event py inbox_owner new_id db_now st a)))
     = (if filter (conflicts a) (events st) = []
        then [inserted_row new_id db_now a
               (if arg_owner_id a = None \<and> truthy (opt_str (arg_email_to a))
                then get_owner_for_inbox py inbox_owner (arg_email_to a)
                else arg_owner_id a)]
        else map (\<lambda>r. r\<lparr>ev_payload := arg_payload a, ev_updated_at := db_now\<rparr>)
               (filter (conflicts a) (events st)))"
proof (cases "find (conflicts a) (events st)")
  case None
  then have empty: "filter (conflicts a) (events st) = []"
    by (simp add: find_filter_none)
  have "conflicts a (inserted_row new_id db_now a owner)" for owner
    by (simp add: conflicts_def inserted_row_def)
  then show ?thesis
    using None empty by (simp add: create_event_def Let_def)
next
  case (Some old)
  then have nonempty: "filter (conflicts a) (events st) \<noteq> []"
    using find_filter_none[of "conflicts a" "events st"] by simp
  have keep: "conflicts a (r\<lparr>ev_payload := arg_payload a, ev_updated_at := db_now\<rparr>) = conflicts a r"
    for r by (simp add: conflicts_def)
  show ?thesis
    using Some nonempty
      filter_updated[of "conflicts a"
        "\<lambda>r. r\<lparr>ev_payload := arg_payload a, ev_updated_at := db_now\<rparr>" "events st", OF keep]
    by (simp add: create_event_def Let_def)
qed

text \<open>
  C6. The table satisfies its unique index on (source, source_id): at most one stored
  row has the pair. Two calls of \<open>create_event\<close> with the same source and the same
  source_id then leave exactly one row with that pair; its payload and \<open>updated_at\<close>
  are those of the second call, and the second call adds no row: the table after it is
  as long as after the first.
\<close>

theorem create_event_idempotent:
  assumes source: "arg_source a2 = arg_source a1"
    and source_id: "arg_source_id a2 = arg_source_id a1"
    and unique: "length (filter (\<lambda>r. ev_source r = arg_source a1
                                   \<and> ev_source_id r = arg_source_id a1) (events st)) \<le> 1"
  shows
    "(let st1 = snd (create_event py inbox_owner id1 now1 st a1);
          st2 = snd (create_event py inbox_owner id2 now2 st1 a2)
      in (\<exists>row.
            filter (\<lambda>r. ev_source r = arg_source a1 \<and> ev_source_id r = arg_source_id a1)
              (events st2) = [row]
            \<and> ev_payload row = arg_payload a2
            \<and> ev_updated_at row = now2)
         \<and> length (events st2) = length (events st1))"
proof -
  define st1 where "st1 = snd (create_event py inbox_owner id1 now1 st a1)"
  define st2 where "st2 = snd (create_event py inbox_owner id2 now2 st1 a2)"
  have same: "conflicts a2 = conflicts a1"
    using source source_id by (simp add: conflicts_key)
  have unique': "length (filter (conflicts a1) (events st)) \<le> 1"
    using unique by (simp add: conflicts_key)
  have one: "\<exists>x. filter (conflicts a1) (events st1) = [x]"
  proof (cases "filter (conflicts a1) (events st) = []")
    case True
    then show ?thesis
      using create_event_rows[of a1 py inbox_owner id1 now1 st] by (simp add: st1_def)
  next
    case False
    then obtain x where "filter (conflicts a1) (events st) = [x]"
      using unique' by (cases "filter (conflicts a1) (events st)") auto
    then show ?thesis
      using create_event_rows[of a1 py inbox_owner id1 now1 st] by (simp add: st1_def)
  qed
  then obtain x where x: "filter (conflicts a1) (events st1) = [x]" ..
  have two: "filter (conflicts a1) (events st2)
      = [x\<lparr>ev_payload := arg_payload a2, ev_updated_at := now2\<rparr>]"
    using create_event_rows[of a2 py inbox_owner id2 now2 st1] x same
    by (simp add: st2_def)
  have "find (conflicts a2) (events st1) \<noteq> None"
    using x same find_filter_none[of "conflicts a1" "events st1"] by simp
  then have len: "length (events st2) = length (events st1)"
    by (auto simp add: st2_def create_event_def Let_def)
  have "filter (\<lambda>r. ev_source r = arg_source a1 \<and> ev_source_id r = arg_source_id a1)
      (events st2) = [x\<lparr>ev_payload := arg_payload a2, ev_updated_at := now2\<rparr>]"
    using two by (simp add: conflicts_key)
  then show ?thesis
    using len
    unfolding Let_def st1_def[symmetric] st2_def[symmetric]
    by simp
qed

text \<open>Ingesting the email \<open>m-1\<close> twice into an empty table.\<close>

theorem create_event_idempotent_witness:
  "\<exists>row.
     filter (\<lambda>r. ev_source r = ''email'' \<and> ev_source_id r = Some ''m-1'')
       (events (snd (create_event sample_pylib (\<lambda>addr. None) ''e-3'' 20
          (snd (create_event sample_pylib (\<lambda>addr. None) ''e-2'' 10
             \<lparr>events = [], rules = [], actions = []\<rparr> reingest_args))
          (reingest_args\<lparr>arg_payload := PDict [(''attempt'', PInt 3)]\<rparr>))))
       = [row]
     \<and> ev_payload row = PDict [(''attempt'', PInt 3)]
     \<and> ev_updated_at row = 20"
proof -
  have unique: "length (filter (\<lambda>r. ev_source r = arg_source reingest_args
        \<and> ev_source_id r = arg_source_id reingest_args)
      (events \<lparr>events = [], rules = [], actions = []\<rparr>)) \<le> 1"
    by simp
  have source: "arg_source (reingest_args\<lparr>arg_payload := PDict [(''attempt'', PInt 3)]\<rparr>)
      = arg_source reingest_args"
    by simp
  have source_id: "arg_source_id (reingest_args\<lparr>arg_payload := PDict [(''attempt'', PInt 3)]\<rparr>)
      = arg_source_id reingest_args"
    by simp
  have src: "arg_source reingest_args = ''email''"
    and sid: "arg_source_id reingest_args = Some ''m-1''"
    by (simp_all add: reingest_args_def)
  show ?thesis
    using create_event_idempotent[OF source source_id unique, where py = sample_pylib
        and inbox_owner = "\<lambda>addr. None"
        and ?id1.0 = "''e-2''" and ?now1.0 = 10 and ?id2.0 = "''e-3''" and ?now2.0 = 20]
    by (simp add: Let_def src sid)
qed

lemma nth_updated:
  "i < length rows \<Longrightarrow>
   map (\<lambda>r. if P r then f r else r) rows ! i = (if P (rows ! i) then f (rows ! i) else rows ! i)"
  by simp

lemma same_but_payload:
  "\<exists>p u. r\<lparr>ev_payload := x, ev_updated_at := y\<rparr> = r\<lparr>ev_payload := p, ev_updated_at := u\<rparr>"
  "\<exists>p u. r = r\<lparr>ev_payload := p, ev_updated_at := u\<rparr>"
proof -
  show "\<exists>p u. r\<lparr>ev_payload := x, ev_updated_at := y\<rparr> = r\<lparr>ev_payload := p, ev_updated_at := u\<rparr>"
    by (intro exI[of _ x] exI[of _ y]) simp
  show "\<exists>p u. r = r\<lparr>ev_payload := p, ev_updated_at := u\<rparr>"
    by (intro exI[of _ "ev_payload r"] exI[of _ "ev_updated_at r"]) simp
qed

text \<open>
  C10. When \<open>create_event\<close> hits an existing (source, source_id) row, the table keeps its
  rows, and every row is what it was except for \<open>payload\<close> and \<open>updated_at\<close>: its
  email_from, email_to, email_subject, email_body, email_date, event_type, owner_id,
  status, matched_rule_id and route_result are unchanged. A conflicting row gets the new
  payload and time stamp, any other row is untouched, and rules and action log are
  unchanged. The returned dictionary is that of the updated row.
\<close>

theorem create_event_conflict_frame:
  assumes hit: "find (conflicts a) (events st) = Some old"
  shows
    "(let st' = snd (create_event py inbox_owner new_id db_now st a)
      in length (events st') = length (events st)
         \<and> rules st' = rules st \<and> actions st' = actions st
         \<and> (\<forall>i<length (events st).
               (\<exists>p u. events st' ! i = (events st ! i)\<lparr>ev_payload := p, ev_updated_at := u\<rparr>)
               \<and> ev_email_from (events st' ! i) = ev_email_from (events st ! i)
               \<and> ev_email_to (events st' ! i) = ev_email_to (events st ! i)
               \<and> ev_email_subject (events st' ! i) = ev_email_subject (events st ! i)
               \<and> ev_email_body (events st' ! i) = ev_email_body (events st ! i)
               \<and> ev_email_date (events st' ! i) = ev_email_date (events st ! i)
               \<and> ev_event_type (events st' ! i) = ev_event_type (events st ! i)
               \<and> ev_owner_id (events st' ! i) = ev_owner_id (events st ! i)
               \<and> ev_status (events st' ! i) = ev_status (events st ! i)
               \<and> ev_matched_rule_id (events st' ! i) = ev_matched_rule_id (events st ! i)
               \<and> ev_route_result (events st' ! i) = ev_route_result (events st ! i)
               \<and> (if conflicts a (events st ! i)
                   then ev_payload (events st' ! i) = arg_payload a
                        \<and> ev_updated_at (events st' ! i) = db_now
                   else events st' ! i = events st ! i))
         \<and> fst (create_event py inbox_owner new_id db_now st a)
             = event_dict (old\<lparr>ev_payload := arg_payload a, ev_updated_at := db_now\<rparr>))"
proof -
  have st': "snd (create_event py inbox_owner new_id db_now st a) =
      st\<lparr>events := map (\<lambda>r. if conflicts a r
                              then r\<lparr>ev_payload := arg_payload a, ev_updated_at := db_now\<rparr>
                              else r) (events st)\<rparr>"
    and res: "fst (create_event py inbox_owner new_id db_now st a)
      = event_dict (old\<lparr>ev_payload := arg_payload a, ev_updated_at := db_now\<rparr>)"
    using hit by (simp_all add: create_event_def Let_def)
  show ?thesis
    unfolding Let_def st' res
    by (simp add: nth_updated same_but_payload)
qed

text \<open>
  Re-ingesting an event that is already \<open>processed\<close>, with different email fields, type
  and owner: the row keeps its status and everything else but payload and time stamp.
\<close>

theorem create_event_conflict_frame_witness:
  "events (snd (create_event sample_pylib (\<lambda>addr. None) ''e-2'' 10
      \<lparr>events = [support_event\<lparr>ev_status := ''processed''\<rparr>], rules = [], actions = []\<rparr>
      reingest_args))
   = [support_event\<lparr>ev_status := ''processed'',
                     ev_payload := PDict [(''attempt'', PInt 2)],
                     ev_updated_at := 10\<rparr>]"
proof -
  let ?st = "\<lparr>events = [support_event\<lparr>ev_status := ''processed''\<rparr>], rules = [], actions = []\<rparr>"
  have c: "conflicts reingest_args (support_event\<lparr>ev_status := ''processed''\<rparr>)"
    by (simp add: conflicts_def reingest_args_def support_event_def)
  then have hit: "find (conflicts reingest_args) (events ?st)
      = Some (support_event\<lparr>ev_status := ''processed''\<rparr>)"
    by simp
  have p: "arg_payload reingest_args = PDict [(''attempt'', PInt 2)]"
    by (simp add: reingest_args_def)
  let ?st' = "snd (create_event sample_pylib (\<lambda>addr. None) ''e-2'' 10 ?st reingest_args)"
  have len: "length (events ?st') = 1"
    using create_event_conflict_frame[OF hit, where py = sample_pylib
        and inbox_owner = "\<lambda>addr. None" and new_id = "''e-2''" and db_now = 10]
    by (simp add: Let_def)
  then obtain r where r: "events ?st' = [r]"
    by (cases "events ?st'") auto
  have "\<exists>p u. r = support_event\<lparr>ev_status := ''processed'', ev_payload := p, ev_updated_at := u\<rparr>"
    and "ev_payload r = PDict [(''attempt'', PInt 2)]" and "ev_updated_at r = 10"
    using create_event_conflict_frame[OF hit, where py = sample_pylib
        and inbox_owner = "\<lambda>addr. None" and new_id = "''e-2''" and db_now = 10] c p
    by (simp_all add: Let_def r)
  then show ?thesis
    using r by auto
qed

subsection \<open>Scheduler spawning\<close>

lemma fold_running:
  "fold (\<lambda>row acc. acc(task_name row := Some row)) rows running n \<noteq> None
   \<longleftrightarrow> running n \<noteq> None \<or> (\<exists>row\<in>set rows. task_name row = n)"
  by (induction rows arbitrary: running) auto

lemma collect_running_key:
  "collect_running db queues running n \<noteq> None
   \<longleftrightarrow> running n \<noteq> None
       \<or> (\<exists>queue\<in>set queues. \<exists>rows. db queue = Some rows
            \<and> (\<exists>row\<in>set rows. active_scheduler_row row \<and> task_name row = n))"
proof (induction queues arbitrary: running)
  case Nil
  then show ?case by simp
next
  case (Cons queue later)
  show ?case
  proof (cases "db queue")
    case None
    then show ?thesis using Cons.IH[of running] by auto
  next
    case (Some rows)
    then show ?thesis
      using Cons.IH[of "fold (\<lambda>row acc. acc(task_name row := Some row))
          (filter active_scheduler_row rows) running"]
        fold_running[of "filter active_scheduler_row rows" running n]
      by auto
  qed
qed

lemma running_iff_active:
  assumes "ends_with ''.scheduler'' n"
  shows "get_running_schedulers db n \<noteq> None \<longleftrightarrow> active_instance db n"
proof -
  have "get_running_schedulers db n \<noteq> None \<longleftrightarrow>
      (\<exists>queue\<in>set [''default'', ''obsidian'', ''email'']. \<exists>rows. db queue = Some rows
            \<and> (\<exists>row\<in>set rows. active_scheduler_row row \<and> task_name row = n))"
    unfolding get_running_schedulers_def by (subst collect_running_key) simp
  also have "\<dots> \<longleftrightarrow> active_instance db n"
    using assms
    unfolding active_instance_def list_ex_iff active_scheduler_row_def
    by (auto split: option.splits)
  finally show ?thesis .
qed

lemma running_active_scheduler_only:
  "\<not> ends_with ''.scheduler'' n \<Longrightarrow> get_running_schedulers db n = None"
proof -
  assume "\<not> ends_with ''.scheduler'' n"
  then have "\<not> (\<exists>queue\<in>set [''default'', ''obsidian'', ''email'']. \<exists>rows. db queue = Some rows
            \<and> (\<exists>row\<in>set rows. active_scheduler_row row \<and> task_name row = n))"
    by (auto simp add: active_scheduler_row_def)
  then have "\<not> get_running_schedulers db n \<noteq> None"
    unfolding get_running_schedulers_def by (subst collect_running_key) simp
  then show ?thesis by simp
qed

text \<open>
  C9, as the code has it. A descriptor whose \<open>enabled\<close> is falsy is skipped by
  \<open>spawn_all_schedulers\<close> with reason \<open>disabled\<close>; nothing is spawned for it and the rest
  of the descriptors are handled on the unchanged queue tables. For an enabled
  descriptor, \<open>singleton\<close> counts as set when it is declared truthy or not declared at
  all. If it is set, the task name ends in \<open>.scheduler\<close>, the tables of the lanes
  \<open>default\<close>, \<open>obsidian\<close> and \<open>email\<close> exist and one of them holds an active instance of
  the task name, \<open>spawn_scheduler\<close> does not spawn and reports \<open>already_running\<close> with
  that instance's task id. If \<open>singleton\<close> is falsy, or the task name does not end in
  \<open>.scheduler\<close>, or none of the three lanes holds an active instance of it, the task is
  spawned on its declared queue (\<open>default\<close> when none is declared).
\<close>

theorem spawn_scheduler_singleton:
  "(\<not> truthy (dict_get config ''enabled'' (PBool True))
      \<and> map_of config ''task_name'' = Some name \<longrightarrow>
      spawn_all_schedulers spawn to_str db (config # later) =
        (case spawn_all_schedulers spawn to_str db later of
           (Inl e, db') \<Rightarrow> (Inl e, db')
         | (Inr results, db') \<Rightarrow>
             (Inr ([(''spawned'', PBool False), (''reason'', PStr ''disabled''),
                    (''config'', PDict config)] # results), db')))
   \<and> (map_of config ''task_name'' = Some (PStr n)
        \<and> truthy (dict_get config ''singleton'' (PBool True))
        \<and> ends_with ''.scheduler'' n \<and> lanes_exist db \<and> active_instance db n \<longrightarrow>
        (\<exists>tid. spawn_scheduler spawn to_str db config =
           (Inr [(''spawned'', PBool False), (''reason'', PStr ''already_running''),
                 (''task_id'', PStr tid)], db)))
   \<and> (map_of config ''task_name'' = Some (PStr n)
        \<and> (\<not> truthy (dict_get config ''singleton'' (PBool True))
            \<or> \<not> ends_with ''.scheduler'' n \<or> \<not> active_instance db n) \<longrightarrow>
        spawn_scheduler spawn to_str db config =
          (case spawn db (PStr n) (dict_get config ''params'' (PDict []))
                  (dict_get config ''queue'' (PStr ''default'')) of
             (Inl e, db') \<Rightarrow> (Inl e, db')
           | (Inr result, db') \<Rightarrow>
               (case py_get result ''task_id'' PNone of
                  Inl e \<Rightarrow> (Inl e, db')
                | Inr tid \<Rightarrow>
                    (Inr [(''spawned'', PBool True), (''task_name'', PStr n),
                          (''queue'', dict_get config ''queue'' (PStr ''default'')),
                          (''task_id'', PStr (to_str tid))], db'))))"
proof (intro conjI impI)
  assume "\<not> truthy (dict_get config ''enabled'' (PBool True))
      \<and> map_of config ''task_name'' = Some name"
  then show "spawn_all_schedulers spawn to_str db (config # later) =
        (case spawn_all_schedulers spawn to_str db later of
           (Inl e, db') \<Rightarrow> (Inl e, db')
         | (Inr results, db') \<Rightarrow>
             (Inr ([(''spawned'', PBool False), (''reason'', PStr ''disabled''),
                    (''config'', PDict config)] # results), db'))"
    by simp
next
  assume a: "map_of config ''task_name'' = Some (PStr n)
        \<and> truthy (dict_get config ''singleton'' (PBool True))
        \<and> ends_with ''.scheduler'' n \<and> lanes_exist db \<and> active_instance db n"
  then have "get_running_schedulers db n \<noteq> None"
    using running_iff_active[of n db] by simp
  then obtain row where "get_running_schedulers db n = Some row"
    by blast
  then have "spawn_scheduler spawn to_str db config =
           (Inr [(''spawned'', PBool False), (''reason'', PStr ''already_running''),
                 (''task_id'', PStr (task_id row))], db)"
    using a by (simp add: spawn_scheduler_def Let_def running_instance_def)
  then show "\<exists>tid. spawn_scheduler spawn to_str db config =
           (Inr [(''spawned'', PBool False), (''reason'', PStr ''already_running''),
                 (''task_id'', PStr tid)], db)"
    by blast
next
  assume a: "map_of config ''task_name'' = Some (PStr n)
        \<and> (\<not> truthy (dict_get config ''singleton'' (PBool True))
            \<or> \<not> ends_with ''.scheduler'' n \<or> \<not> active_instance db n)"
  have none: "truthy (dict_get config ''singleton'' (PBool True)) \<Longrightarrow>
      get_running_schedulers db n = None"
    using a running_iff_active[of n db] running_active_scheduler_only[of n db] by blast
  have "(if truthy (dict_get config ''singleton'' (PBool True))
         then running_instance (get_running_schedulers db) (PStr n)
         else Inr None) = Inr None"
    using none by (simp add: running_instance_def)
  then show "spawn_scheduler spawn to_str db config =
          (case spawn db (PStr n) (dict_get config ''params'' (PDict []))
                  (dict_get config ''queue'' (PStr ''default'')) of
             (Inl e, db') \<Rightarrow> (Inl e, db')
           | (Inr result, db') \<Rightarrow>
               (case py_get result ''task_id'' PNone of
                  Inl e \<Rightarrow> (Inl e, db')
                | Inr tid \<Rightarrow>
                    (Inr [(''spawned'', PBool True), (''task_name'', PStr n),
                          (''queue'', dict_get config ''queue'' (PStr ''default'')),
                          (''task_id'', PStr (to_str tid))], db')))"
    using a by (simp add: spawn_scheduler_def Let_def)
qed

text \<open>
  The email scheduler is sleeping on its lane and is not spawned again; the disabled
  vault scheduler is skipped.
\<close>

theorem spawn_scheduler_singleton_witness:
  "(\<exists>tid. spawn_scheduler sample_spawn (py_str sample_env) example_lanes resend_config =
       (Inr [(''spawned'', PBool False), (''reason'', PStr ''already_running''),
             (''task_id'', PStr tid)], example_lanes))
   \<and> spawn_all_schedulers sample_spawn (py_str sample_env) example_lanes [disabled_config] =
       (Inr [[(''spawned'', PBool False), (''reason'', PStr ''disabled''),
              (''config'', PDict disabled_config)]], example_lanes)"
proof -
  have name: "map_of resend_config ''task_name'' = Some (PStr ''resend.scheduler'')"
    by (simp add: resend_config_def)
  have single: "truthy (dict_get resend_config ''singleton'' (PBool True))"
    by (simp add: resend_config_def dict_get_def)
  have suffix: "ends_with ''.scheduler'' ''resend.scheduler''"
    by (simp add: ends_with_def)
  have lanes: "lanes_exist example_lanes"
    by (simp add: lanes_exist_def example_lanes_def)
  have active: "active_instance example_lanes ''resend.scheduler''"
    by (simp add: active_instance_def example_lanes_def)
  have off: "\<not> truthy (dict_get disabled_config ''enabled'' (PBool True))"
    by (simp add: disabled_config_def dict_get_def)
  have dname: "map_of disabled_config ''task_name'' = Some (PStr ''obsidian.scheduler'')"
    by (simp add: disabled_config_def)
  have first: "\<exists>tid. spawn_scheduler sample_spawn (py_str sample_env) example_lanes resend_config =
       (Inr [(''spawned'', PBool False), (''reason'', PStr ''already_running''),
             (''task_id'', PStr tid)], example_lanes)"
    using spawn_scheduler_singleton[where config = resend_config and n = "''resend.scheduler''"
        and db = example_lanes and spawn = sample_spawn and to_str = "py_str sample_env"]
      name single suffix lanes active
    by simp
  have second: "spawn_all_schedulers sample_spawn (py_str sample_env) example_lanes [disabled_config] =
       (Inr [[(''spawned'', PBool False), (''reason'', PStr ''disabled''),
              (''config'', PDict disabled_config)]], example_lanes)"
    using spawn_scheduler_singleton[where config = disabled_config
        and name = "PStr ''obsidian.scheduler''" and later = "[]"
        and db = example_lanes and spawn = sample_spawn and to_str = "py_str sample_env"]
      off dname
    by simp
  show ?thesis using first second by (rule conjI)
qed

text \<open>
  C9 as stated fails. \<open>reports.daily\<close> is a declared singleton with a running instance
  on the default lane, and it is spawned again, because the query only looks at task
  names ending in \<open>.scheduler\<close>. \<open>cleanup.scheduler\<close> is a declared singleton with a
  pending instance on the lane \<open>cleanup\<close>, and it is spawned again, because the query
  only looks at the lanes \<open>default\<close>, \<open>obsidian\<close> and \<open>email\<close>. The descriptor that
  does not declare \<open>singleton\<close> is not spawned but reported \<open>already_running\<close>.
\<close>

theorem spawn_scheduler_counterexample:
  "truthy (dict_get reports_config ''singleton'' (PBool True))
   \<and> example_lanes ''default'' =
       Some [\<lparr>task_id = ''t-7'', task_name = ''reports.daily'', task_state = ''running'',
               task_attempts = 1\<rparr>]
   \<and> fst (spawn_scheduler sample_spawn (py_str sample_env) example_lanes reports_config)
       = Inr [(''spawned'', PBool True), (''task_name'', PStr ''reports.daily''),
              (''queue'', PStr ''default''), (''task_id'', PStr ''t-new'')]
   \<and> truthy (dict_get cleanup_config ''singleton'' (PBool True))
   \<and> example_lanes ''cleanup'' =
       Some [\<lparr>task_id = ''t-9'', task_name = ''cleanup.scheduler'', task_state = ''pending'',
               task_attempts = 0\<rparr>]
   \<and> fst (spawn_scheduler sample_spawn (py_str sample_env) example_lanes cleanup_config)
       = Inr [(''spawned'', PBool True), (''task_name'', PStr ''cleanup.scheduler''),
              (''queue'', PStr ''cleanup''), (''task_id'', PStr ''t-new'')]
   \<and> map_of undeclared_config ''singleton'' = None
   \<and> fst (spawn_scheduler sample_spawn (py_str sample_env) example_lanes undeclared_config)
       = Inr [(''spawned'', PBool False), (''reason'', PStr ''already_running''),
              (''task_id'', PStr ''t-3'')]"
proof -
  have single: "truthy (dict_get reports_config ''singleton'' (PBool True))"
    "truthy (dict_get cleanup_config ''singleton'' (PBool True))"
    "map_of undeclared_config ''singleton'' = None"
    by (simp_all add: reports_config_def cleanup_config_def undeclared_config_def dict_get_def)
  have lanes: "example_lanes ''default'' =
       Some [\<lparr>task_id = ''t-7'', task_name = ''reports.daily'', task_state = ''running'',
               task_attempts = 1\<rparr>]"
    "example_lanes ''cleanup'' =
       Some [\<lparr>task_id = ''t-9'', task_name = ''cleanup.scheduler'', task_state = ''pending'',
               task_attempts = 0\<rparr>]"
    by (simp_all add: example_lanes_def)
  have "\<not> ends_with ''.scheduler'' ''reports.daily''"
    by (simp add: ends_with_def)
  then have none: "get_running_schedulers example_lanes ''reports.daily'' = None"
    by (rule running_active_scheduler_only)
  have reports: "fst (spawn_scheduler sample_spawn (py_str sample_env) example_lanes reports_config)
       = Inr [(''spawned'', PBool True), (''task_name'', PStr ''reports.daily''),
              (''queue'', PStr ''default''), (''task_id'', PStr ''t-new'')]"
    using none
    by (simp add: spawn_scheduler_def Let_def reports_config_def dict_get_def
        running_instance_def sample_spawn_def py_get_def sample_env_def)
  have other: "get_running_schedulers example_lanes ''cleanup.scheduler'' = None"
    by (simp add: get_running_schedulers_def example_lanes_def active_scheduler_row_def
        ends_with_def)
  have cleanup: "fst (spawn_scheduler sample_spawn (py_str sample_env) example_lanes cleanup_config)
       = Inr [(''spawned'', PBool True), (''task_name'', PStr ''cleanup.scheduler''),
              (''queue'', PStr ''cleanup''), (''task_id'', PStr ''t-new'')]"
    using other
    by (simp add: spawn_scheduler_def Let_def cleanup_config_def dict_get_def
        running_instance_def sample_spawn_def py_get_def sample_env_def)
  have found: "get_running_schedulers example_lanes ''resend.scheduler'' =
      Some \<lparr>task_id = ''t-3'', task_name = ''resend.scheduler'', task_state = ''sleeping'',
             task_attempts = 1\<rparr>"
    by (simp add: get_running_schedulers_def example_lanes_def active_scheduler_row_def
        ends_with_def)
  have undeclared: "fst (spawn_scheduler sample_spawn (py_str sample_env) example_lanes
        undeclared_config)
       = Inr [(''spawned'', PBool False), (''reason'', PStr ''already_running''),
              (''task_id'', PStr ''t-3'')]"
    using found
    by (simp add: spawn_scheduler_def Let_def undeclared_config_def dict_get_def
        running_instance_def)
  show ?thesis
    using single lanes reports cleanup undeclared by simp
qed

end
